theory Spec2Isabelle
  imports Main "HOL-Library.Word" "HOL-Library.Char_ord" "HOL-Library.List_Lexorder"
begin

section \<open>Source locations, source manager, diagnostics\<close>

text \<open>
  A \<^verbatim>\<open>clang::SourceLocation\<close> is a 32-bit raw encoding: 0 is the invalid location and
  the top bit marks a location inside a macro expansion.  \<^verbatim>\<open>getLocWithOffset\<close> adds an
  offset to the raw encoding.
\<close>

type_synonym SourceLocation = "32 word"

type_synonym FileID = int

definition getRawEncoding :: "SourceLocation \<Rightarrow> nat" where
  "getRawEncoding L = unat L"

definition isValid :: "SourceLocation \<Rightarrow> bool" where
  "isValid L = (L \<noteq> 0)"

definition isInvalid :: "SourceLocation \<Rightarrow> bool" where
  "isInvalid L = (L = 0)"

definition isMacroID :: "SourceLocation \<Rightarrow> bool" where
  "isMacroID L = (2 ^ 31 \<le> L)"

definition isFileID :: "SourceLocation \<Rightarrow> bool" where
  "isFileID L = (\<not> isMacroID L)"

definition getLocWithOffset :: "SourceLocation \<Rightarrow> nat \<Rightarrow> SourceLocation" where
  "getLocWithOffset L Off = L + of_nat Off"

text \<open>
  The queries of \<^verbatim>\<open>clang::SourceManager\<close>, of the lexer and of \<^verbatim>\<open>ClangUtils.h\<close> that the
  writer consults.  They belong to collaborators of the pass and are taken as parameters:
  \<^item> \<open>isInIncludeFile F\<close> is \<^verbatim>\<open>SrcMgr.getDecomposedIncludedLoc(F).first.isValid()\<close>;
  \<^item> \<open>PreambleSize F\<close> is \<^verbatim>\<open>Lexer::ComputePreamble(SrcMgr.getBufferData(F), LangOpts).Size\<close>.
\<close>

record SourceManager =
  getFilename :: "SourceLocation \<Rightarrow> string"
  getFileID :: "SourceLocation \<Rightarrow> FileID"
  getDecomposedLoc :: "SourceLocation \<Rightarrow> FileID \<times> nat"
  getLocForStartOfFile :: "FileID \<Rightarrow> SourceLocation"
  getStartOfLine :: "SourceLocation \<Rightarrow> SourceLocation"
  isInIncludeFile :: "FileID \<Rightarrow> bool"
  PreambleSize :: "FileID \<Rightarrow> nat"

datatype DiagID =
    err_apc_insert_dvm_directive
  | note_apc_insert_multiple_directives
  | note_apc_insert_macro_prevent
  | note_apc_not_single_decl_stmt
  | note_apc_no_proper_definition
  | note_apc_insert_include_prevent
  | err_apc_insert_template

text \<open>
  One call of \<^verbatim>\<open>toDiag(Diags, [Loc,] ID) << Arg\<close>: the location when one is given, the
  diagnostic and its streamed arguments.
\<close>

datatype Diag = Diag "SourceLocation option" DiagID "string list"

text \<open>\<^verbatim>\<open>StringRef::trim()\<close> drops the characters \<^verbatim>\<open>" \t\n\v\f\r"\<close> at both ends.\<close>

definition isTrimChar :: "char \<Rightarrow> bool" where
  "isTrimChar c = (c \<in> set [CHR '' '', CHR 0x09, CHR 0x0A, CHR 0x0B, CHR 0x0C, CHR 0x0D])"

definition trim :: "string \<Rightarrow> string" where
  "trim S = rev (dropWhile isTrimChar (rev (dropWhile isTrimChar S)))"

section \<open>The text-insertion ledger of \<^verbatim>\<open>APCDVMHWriter\<close>\<close>

text \<open>The rewriter is modelled by the sequence of insertions it has been asked for.\<close>

datatype Edit = InsertTextBefore SourceLocation string

record Writer =
  mTransformedFiles :: "string \<rightharpoonup> FileID"
  mInsertedDirs :: "nat \<rightharpoonup> string"
  Edits :: "Edit list"
  Diags :: "Diag list"

text \<open>\<^verbatim>\<open>try_emplace\<close> of the LLVM maps: an existing binding of the key is kept.\<close>

definition try_emplace :: "('k \<rightharpoonup> 'v) \<Rightarrow> 'k \<Rightarrow> 'v \<Rightarrow> ('k \<rightharpoonup> 'v)" where
  "try_emplace M K V = (case M K of None \<Rightarrow> M(K \<mapsto> V) | Some _ \<Rightarrow> M)"

text \<open>
  The assertions of the writer are not branches of the model: the build defines
  \<^verbatim>\<open>NDEBUG\<close> for every configuration but Debug.  What they require is a hypothesis of
  the theorems that need it.
\<close>

definition getLocationToTransform ::
    "SourceManager \<Rightarrow> Writer \<Rightarrow> SourceLocation \<Rightarrow> SourceLocation" where
  "getLocationToTransform SM W L =
     (case mTransformedFiles W (getFilename SM L) of
        None \<Rightarrow> L
      | Some F \<Rightarrow> getLocWithOffset (getLocForStartOfFile SM F) (snd (getDecomposedLoc SM L)))"

text \<open>\<^verbatim>\<open>insertDirective\<close> of \<^verbatim>\<open>lib/APC/DVMHWriter.cpp\<close>.\<close>

definition insertDirective ::
    "SourceManager \<Rightarrow> SourceLocation \<Rightarrow> string \<Rightarrow> Writer \<Rightarrow> Writer" where
  "insertDirective SM Where0 DirStr W =
     (let Where = getLocationToTransform SM W Where0 in
      case mInsertedDirs W (getRawEncoding Where) of
        Some Prev \<Rightarrow>
          if Prev = DirStr then W
          else W\<lparr>Diags := Diags W @
                 [Diag (Some Where) err_apc_insert_dvm_directive [trim DirStr],
                  Diag (Some Where) note_apc_insert_multiple_directives []]\<rparr>
      | None \<Rightarrow>
          W\<lparr>Edits := Edits W @ InsertTextBefore Where DirStr #
                 (if Where \<noteq> getStartOfLine SM Where
                  then [InsertTextBefore Where ''\<newline>''] else []),
            mTransformedFiles :=
              try_emplace (mTransformedFiles W) (getFilename SM Where) (getFileID SM Where),
            mInsertedDirs := try_emplace (mInsertedDirs W) (getRawEncoding Where) DirStr\<rparr>)"

text \<open>
  \<^verbatim>\<open>insertDirective\<close> of the second copy of the writer (\<^verbatim>\<open>src/unnamed/part_001\<close>): only a
  binding to a different text returns early; a binding to the same text falls through to
  the insertion.
\<close>

definition insertDirective_part_001 ::
    "SourceManager \<Rightarrow> SourceLocation \<Rightarrow> string \<Rightarrow> Writer \<Rightarrow> Writer" where
  "insertDirective_part_001 SM Where0 DirStr W =
     (let Where = getLocationToTransform SM W Where0;
          Itr = mInsertedDirs W (getRawEncoding Where) in
      if Itr \<noteq> None \<and> Itr \<noteq> Some DirStr
      then W\<lparr>Diags := Diags W @
                 [Diag (Some Where) err_apc_insert_dvm_directive [trim DirStr],
                  Diag (Some Where) note_apc_insert_multiple_directives []]\<rparr>
      else
          W\<lparr>Edits := Edits W @ InsertTextBefore Where DirStr #
                 (if Where \<noteq> getStartOfLine SM Where
                  then [InsertTextBefore Where ''\<newline>''] else []),
            mTransformedFiles :=
              try_emplace (mTransformedFiles W) (getFilename SM Where) (getFileID SM Where),
            mInsertedDirs := try_emplace (mInsertedDirs W) (getRawEncoding Where) DirStr\<rparr>)"

text \<open>
  A location decomposes when the start of its file plus its offset is the location
  again, as \<^verbatim>\<open>SourceManager::getDecomposedLoc\<close> promises for file locations.
\<close>

definition decomposes :: "SourceManager \<Rightarrow> SourceLocation \<Rightarrow> bool" where
  "decomposes SM L =
     (getLocWithOffset (getLocForStartOfFile SM (getFileID SM L)) (snd (getDecomposedLoc SM L)) = L)"

section \<open>Merged redeclaration locations (\<^verbatim>\<open>ASTImportInfo.h\<close>)\<close>

type_synonym RedeclLocList = "SourceLocation list"

type_synonym MergedLocations = "RedeclLocList list"

text \<open>The constructor: one list of size one per location of the merge target.\<close>

definition MergedLocations :: "SourceLocation list \<Rightarrow> MergedLocations" where
  "MergedLocations ToLocs = map (\<lambda>Loc. [Loc]) ToLocs"

text \<open>
  \<^verbatim>\<open>push_back\<close> appends the I-th merged location to the I-th list, for every index I of
  \<open>MergedLocs\<close>.  Its assertion (equal sizes) guards the indexing; with more merged
  locations than lists the access \<^verbatim>\<open>mRedeclLocs[I]\<close> is out of range, which is the
  result \<open>None\<close>.
\<close>

definition push_back :: "MergedLocations \<Rightarrow> SourceLocation list \<Rightarrow> MergedLocations option" where
  "push_back M MergedLocs =
     (if length M < length MergedLocs then None
      else Some (map (\<lambda>(Locs, Loc). Locs @ [Loc]) (zip M MergedLocs) @
                 drop (length MergedLocs) M))"

text \<open>
  \<^verbatim>\<open>MergedLocations::find\<close> returns the first list whose element 0 is \<open>Loc\<close>.  When no list matches,
  control reaches the end of the function without a \<^verbatim>\<open>return\<close>: the behaviour is
  undefined, which is the result \<open>None\<close>.  So is the read \<^verbatim>\<open>Locs[0]\<close> of an empty list.
\<close>

fun find_merged :: "MergedLocations \<Rightarrow> SourceLocation \<Rightarrow> RedeclLocList option" where
  "find_merged [] Loc = None"
| "find_merged ([] # M) Loc = None"
| "find_merged ((L0 # Locs) # M) Loc =
     (if L0 = Loc then Some (L0 # Locs) else find_merged M Loc)"

text \<open>The lists a \<^verbatim>\<open>MergedLocations\<close> object can hold: none of them is empty.\<close>

definition wf_MergedLocations :: "MergedLocations \<Rightarrow> bool" where
  "wf_MergedLocations M = list_all (\<lambda>Locs. Locs \<noteq> []) M"

section \<open>Directive texts\<close>

datatype DirectiveId =
  DvmTemplate | DvmArray | DvmInherit | DvmParallel | DvmRegion | DvmActual | DvmGetActual

text \<open>
  Modelled from the spec: \<^verbatim>\<open>getPragmaText\<close> of \<^verbatim>\<open>tsar_pragma.h\<close>, which is not among the
  sources.  The literal directive forms are those of section 6 of the specification; the
  text ends with the newline that every caller removes with \<^verbatim>\<open>pop_back\<close> or keeps as the
  end of its line.
\<close>

definition getPragmaText :: "DirectiveId \<Rightarrow> string" where
  "getPragmaText D =
     (case D of
        DvmTemplate \<Rightarrow> ''#pragma dvm template\<newline>''
      | DvmArray \<Rightarrow> ''#pragma dvm array\<newline>''
      | DvmInherit \<Rightarrow> ''#pragma dvm inherit\<newline>''
      | DvmParallel \<Rightarrow> ''#pragma dvm parallel\<newline>''
      | DvmRegion \<Rightarrow> ''#pragma dvm region\<newline>''
      | DvmActual \<Rightarrow> ''#pragma dvm actual\<newline>''
      | DvmGetActual \<Rightarrow> ''#pragma dvm get_actual\<newline>'')"

text \<open>Decimal digits of a number, as \<^verbatim>\<open>Twine(N).str()\<close> and \<^verbatim>\<open>std::to_string\<close> print them.\<close>

definition digit :: "nat \<Rightarrow> char" where
  "digit d =
     (if d = 0 then CHR ''0'' else if d = 1 then CHR ''1'' else if d = 2 then CHR ''2''
      else if d = 3 then CHR ''3'' else if d = 4 then CHR ''4'' else if d = 5 then CHR ''5''
      else if d = 6 then CHR ''6'' else if d = 7 then CHR ''7'' else if d = 8 then CHR ''8''
      else CHR ''9'')"

fun decimal :: "nat \<Rightarrow> string" where
  "decimal N = (if 10 \<le> N then decimal (N div 10) @ [digit (N mod 10)] else [digit N])"

definition Twine_str :: "int \<Rightarrow> string" where
  "Twine_str N = (if 0 \<le> N then decimal (nat N) else CHR ''-'' # decimal (nat (- N)))"

section \<open>Alignment directives (\<^verbatim>\<open>APCDVMHWriter::insertAlignment\<close>)\<close>

text \<open>Raw encoding of the location of a declaration to \<^verbatim>\<open>IsSingleDeclStmt\<close>.\<close>

type_synonym DeclarationInfoMap = "nat \<rightharpoonup> bool"

text \<open>
  \<^verbatim>\<open>insertDataDirective\<close> of \<^verbatim>\<open>lib/APC/DVMHWriter.cpp\<close>: a declaration without an entry is
  treated like a single declaration.
\<close>

definition insertDataDirective ::
    "SourceManager \<Rightarrow> SourceLocation \<Rightarrow> DeclarationInfoMap \<Rightarrow> SourceLocation \<Rightarrow> string \<Rightarrow>
     Writer \<Rightarrow> Writer" where
  "insertDataDirective SM DeclLoc Decls Where DirStr W =
     (if isMacroID Where
      then W\<lparr>Diags := Diags W @
               [Diag (Some Where) err_apc_insert_dvm_directive [trim DirStr],
                Diag (Some DeclLoc) note_apc_insert_macro_prevent []]\<rparr>
      else if Decls (getRawEncoding DeclLoc) = None \<or> Decls (getRawEncoding DeclLoc) = Some True
      then insertDirective SM Where DirStr W
      else W\<lparr>Diags := Diags W @
               [Diag (Some Where) err_apc_insert_dvm_directive [trim DirStr],
                Diag (Some DeclLoc) note_apc_not_single_decl_stmt []]\<rparr>)"

text \<open>
  One redeclaration of a variable, as the writer reads a \<^verbatim>\<open>clang::VarDecl\<close>; \<open>DeclAddr\<close> is
  the identity of the declaration object, the key of \<^verbatim>\<open>ASTImportInfo::RedeclLocs\<close>.
\<close>

datatype DefinitionKind = DeclarationOnly | TentativeDefinition | Definition

record VarDecl =
  DeclAddr :: nat
  getName :: string
  getLocation :: SourceLocation
  getLocStart :: SourceLocation
  isThisDeclarationADefinition :: DefinitionKind

record ASTImportInfo =
  RedeclLocs :: "nat \<rightharpoonup> MergedLocations"

text \<open>
  \<^verbatim>\<open>VarDecl::getDefinition\<close> walks the redeclaration chain and returns the first
  declaration that is a \<^verbatim>\<open>Definition\<close>, or null.
\<close>

definition getDefinition :: "VarDecl list \<Rightarrow> VarDecl option" where
  "getDefinition Redecls = List.find (\<lambda>R. isThisDeclarationADefinition R = Definition) Redecls"

text \<open>
  The loop over the location aliases of a merged redeclaration.  \<open>StartLocs\<close> is read at
  the index of every alias that differs from \<open>RedeclLoc\<close>; a read past its end is
  undefined (\<open>None\<close>).
\<close>

fun insertAliases ::
    "SourceManager \<Rightarrow> DeclarationInfoMap \<Rightarrow> string \<Rightarrow> SourceLocation \<Rightarrow> RedeclLocList \<Rightarrow>
     RedeclLocList \<Rightarrow> Writer \<Rightarrow> Writer option" where
  "insertAliases SM Decls Array RedeclLoc [] StartLocs W = Some W"
| "insertAliases SM Decls Array RedeclLoc (L # Locs) StartLocs W =
     (if L = RedeclLoc then insertAliases SM Decls Array RedeclLoc Locs (tl StartLocs) W
      else case StartLocs of
             [] \<Rightarrow> None
           | S # Rest \<Rightarrow>
               insertAliases SM Decls Array RedeclLoc Locs Rest
                 (insertDataDirective SM L Decls S Array W))"

text \<open>
  The body of the loop over \<^verbatim>\<open>VD->getFirstDecl()->redecls()\<close>; the state is
  \<open>DefinitionLoc\<close> and the writer.
\<close>

definition insertAlignmentRedecl ::
    "SourceManager \<Rightarrow> ASTImportInfo \<Rightarrow> DeclarationInfoMap \<Rightarrow> string \<Rightarrow> string \<Rightarrow> VarDecl \<Rightarrow>
     SourceLocation \<times> Writer \<Rightarrow> (SourceLocation \<times> Writer) option" where
  "insertAlignmentRedecl SM Import Decls Align Array Redecl S =
     (let DefinitionLoc = fst S; W = snd S;
          StartOfDecl = getLocStart Redecl;
          RedeclLoc = getLocation Redecl;
          S1 = (case isThisDeclarationADefinition Redecl of
                  Definition \<Rightarrow> (DefinitionLoc, W)
                | DeclarationOnly \<Rightarrow>
                    (DefinitionLoc, insertDataDirective SM RedeclLoc Decls StartOfDecl Array W)
                | TentativeDefinition \<Rightarrow>
                    if isInvalid DefinitionLoc
                    then if isInIncludeFile SM (getFileID SM StartOfDecl)
                         then (DefinitionLoc,
                               insertDataDirective SM RedeclLoc Decls StartOfDecl Array W)
                         else (RedeclLoc,
                               insertDataDirective SM RedeclLoc Decls StartOfDecl Align W)
                    else (RedeclLoc,
                          insertDataDirective SM RedeclLoc Decls StartOfDecl Align W))
      in case RedeclLocs Import (DeclAddr Redecl) of
           None \<Rightarrow> Some S1
         | Some Merged \<Rightarrow>
             (case find_merged Merged RedeclLoc of
                None \<Rightarrow> None
              | Some Locs \<Rightarrow>
                  (case find_merged Merged StartOfDecl of
                     None \<Rightarrow> None
                   | Some StartLocs \<Rightarrow>
                       map_option (Pair (fst S1))
                         (insertAliases SM Decls Array RedeclLoc Locs StartLocs (snd S1)))))"

fun insertAlignmentLoop ::
    "SourceManager \<Rightarrow> ASTImportInfo \<Rightarrow> DeclarationInfoMap \<Rightarrow> string \<Rightarrow> string \<Rightarrow> VarDecl list \<Rightarrow>
     SourceLocation \<times> Writer \<Rightarrow> (SourceLocation \<times> Writer) option" where
  "insertAlignmentLoop SM Import Decls Align Array [] S = Some S"
| "insertAlignmentLoop SM Import Decls Align Array (Redecl # Redecls) S =
     (case insertAlignmentRedecl SM Import Decls Align Array Redecl S of
        None \<Rightarrow> None
      | Some S' \<Rightarrow> insertAlignmentLoop SM Import Decls Align Array Redecls S')"

text \<open>
  \<^verbatim>\<open>insertAlignment\<close>.  \<open>Align\<close> is the text of the \<^verbatim>\<open>align\<close> directive, which the function
  first builds from the align rule with helpers of \<^verbatim>\<open>DistributionUtils.h\<close>; \<open>VD\<close> is the
  matched declaration and \<open>Redecls\<close> its redeclaration chain.  The result is the location
  of the definition (invalid when there is none) and the writer.
\<close>

definition insertAlignment ::
    "SourceManager \<Rightarrow> ASTImportInfo \<Rightarrow> DeclarationInfoMap \<Rightarrow> string \<Rightarrow> VarDecl \<Rightarrow> VarDecl list \<Rightarrow>
     Writer \<Rightarrow> (SourceLocation \<times> Writer) option" where
  "insertAlignment SM Import Decls Align VD Redecls W =
     (let S0 = (case getDefinition Redecls of
                  None \<Rightarrow> (0, W)
                | Some VarDef \<Rightarrow>
                    (getLocation VarDef,
                     insertDataDirective SM (getLocation VarDef) Decls (getLocStart VarDef)
                       Align W))
      in case insertAlignmentLoop SM Import Decls Align (getPragmaText DvmArray) Redecls S0 of
           None \<Rightarrow> None
         | Some S \<Rightarrow>
             Some (fst S,
                   if isInvalid (fst S)
                   then (snd S)\<lparr>Diags := Diags (snd S) @
                          [Diag (Some (getLocation VD)) err_apc_insert_dvm_directive [trim Align],
                           Diag None note_apc_no_proper_definition [getName VD]]\<rparr>
                   else snd S))"

text \<open>
  \<open>insertsOnly D W W'\<close>: the rewriter of \<open>W'\<close> holds the insertions of \<open>W\<close> followed only
  by insertions of the text \<open>D\<close> and of single newlines.
\<close>

definition isTextOrNewline :: "string \<Rightarrow> Edit \<Rightarrow> bool" where
  "isTextOrNewline D E = (case E of InsertTextBefore L T \<Rightarrow> T = D \<or> T = ''\<newline>'')"

definition insertsOnly :: "string \<Rightarrow> Writer \<Rightarrow> Writer \<Rightarrow> bool" where
  "insertsOnly D W W' =
     (take (length (Edits W)) (Edits W') = Edits W \<and>
      list_all (isTextOrNewline D) (drop (length (Edits W)) (Edits W')))"

text \<open>
  No redeclaration is a definition for the writer: none is a \<^verbatim>\<open>Definition\<close> and every
  tentative definition is in an include file.
\<close>

definition noDefinition :: "SourceManager \<Rightarrow> VarDecl list \<Rightarrow> bool" where
  "noDefinition SM Redecls =
     list_all (\<lambda>R. isThisDeclarationADefinition R \<noteq> Definition \<and>
                   (isThisDeclarationADefinition R = TentativeDefinition \<longrightarrow>
                      isInIncludeFile SM (getFileID SM (getLocStart R)))) Redecls"

text \<open>
  The import information fits the redeclarations: for a merged redeclaration both its
  location and the start of its statement are original locations, and the list of
  statement starts is as long as the list of locations.
\<close>

definition importFits :: "ASTImportInfo \<Rightarrow> VarDecl list \<Rightarrow> bool" where
  "importFits Import Redecls =
     list_all (\<lambda>R. case RedeclLocs Import (DeclAddr R) of
                     None \<Rightarrow> True
                   | Some Merged \<Rightarrow>
                       (case (find_merged Merged (getLocation R),
                              find_merged Merged (getLocStart R)) of
                          (Some Locs, Some StartLocs) \<Rightarrow> length Locs \<le> length StartLocs
                        | _ \<Rightarrow> False)) Redecls"

section \<open>Template declarations (\<^verbatim>\<open>APCDVMHWriter::insertDistibution\<close>)\<close>

text \<open>
  What the writer reads of an \<^verbatim>\<open>apc::Array\<close> that is a distribution template: its
  identity (the maps are keyed by the pointer), its short name and the bounds of its
  dimensions; \<^verbatim>\<open>GetDimSize()\<close> is the number of these.
\<close>

record apc_Array =
  ArrayAddr :: nat
  GetShortName :: string
  GetSizes :: "(int \<times> int) list"

datatype distType = BLOCK | NONE

text \<open>A distribution variant is its \<^verbatim>\<open>distRule\<close>: one kind per dimension.\<close>

type_synonym DistrVariant = "distType list"

type_synonym DistrRules = "(apc_Array \<times> DistrVariant list) list"

text \<open>
  \<^verbatim>\<open>TemplateInFileUsage\<close>: per file the templates used in it, each with its
  \<^verbatim>\<open>HasDefinition\<close> flag.  The association lists are in the iteration order of the
  dense maps.
\<close>

type_synonym TemplateUsage = "(apc_Array \<times> bool) list"

type_synonym TemplateInFileUsage = "(FileID \<times> TemplateUsage) list"

definition alist_try_emplace :: "('k \<times> 'v) list \<Rightarrow> 'k \<Rightarrow> 'v \<Rightarrow> ('k \<times> 'v) list" where
  "alist_try_emplace M K V = (if map_of M K = None then M @ [(K, V)] else M)"

fun alist_update :: "'k \<Rightarrow> 'v \<Rightarrow> ('k \<times> 'v) list \<Rightarrow> ('k \<times> 'v) list" where
  "alist_update K V [] = []"
| "alist_update K V ((K', V') # M) =
     (if K' = K then (K, V) # M else (K', V') # alist_update K V M)"

text \<open>
  The second half of \<^verbatim>\<open>insertAlignAndCollectTpl\<close> in \<^verbatim>\<open>runOnModule\<close>: when the alignment
  has a valid definition location, the template is entered for the file of that location
  with a default-constructed \<^verbatim>\<open>TemplateInfo\<close> (\<^verbatim>\<open>HasDefinition = false\<close>).
\<close>

definition collectTemplate ::
    "SourceManager \<Rightarrow> SourceLocation \<Rightarrow> apc_Array \<Rightarrow> TemplateInFileUsage \<Rightarrow> TemplateInFileUsage" where
  "collectTemplate SM DefLoc alignWith Templates =
     (if isValid DefLoc
      then let FID = getFileID SM DefLoc;
               Templates1 = alist_try_emplace Templates FID [];
               Usage = (case map_of Templates1 FID of None \<Rightarrow> [] | Some U \<Rightarrow> U)
           in alist_update FID (alist_try_emplace Usage alignWith False) Templates1
      else Templates)"

definition insertAlignAndCollectTpl ::
    "SourceManager \<Rightarrow> ASTImportInfo \<Rightarrow> DeclarationInfoMap \<Rightarrow> string \<Rightarrow> apc_Array \<Rightarrow> VarDecl \<Rightarrow>
     VarDecl list \<Rightarrow> TemplateInFileUsage \<times> Writer \<Rightarrow> (TemplateInFileUsage \<times> Writer) option" where
  "insertAlignAndCollectTpl SM Import Decls Align alignWith VD Redecls S =
     (case insertAlignment SM Import Decls Align VD Redecls (snd S) of
        None \<Rightarrow> None
      | Some R \<Rightarrow> Some (collectTemplate SM (fst R) alignWith (fst S), snd R))"

text \<open>No template of any file has its \<^verbatim>\<open>HasDefinition\<close> flag set.\<close>

definition allFlagsFalse :: "TemplateInFileUsage \<Rightarrow> bool" where
  "allFlagsFalse Templates =
     list_all (\<lambda>File. list_all (\<lambda>Info. \<not> snd Info) (snd File)) Templates"

text \<open>The first line of the template declaration, up to and including its newline.\<close>

definition distributeText :: "apc_Array \<Rightarrow> DistrVariant \<Rightarrow> string" where
  "distributeText Tpl DR =
     butlast (getPragmaText DvmTemplate) @ '' '' @
     concat (map (\<lambda>Size. ''['' @ Twine_str (snd Size) @ '']'') (GetSizes Tpl)) @
     '' distribute '' @
     concat (map (\<lambda>Kind. case Kind of BLOCK \<Rightarrow> ''[block]'' | NONE \<Rightarrow> ''[]'') DR) @
     ''\<newline>''"

text \<open>
  The body of the inner loop, for the rule at index \<open>DistrRuleIdx\<close> in the file \<open>File\<close>.
  The state is the usage map of the file, the writer and \<^verbatim>\<open>InsertedTemplates\<close>.  A
  variant index out of range is the result \<open>None\<close> (the assertion guards it).
\<close>

definition insertTemplate ::
    "SourceManager \<Rightarrow> nat list \<Rightarrow> FileID \<Rightarrow> nat \<Rightarrow> apc_Array \<times> DistrVariant list \<Rightarrow>
     TemplateUsage \<times> Writer \<times> apc_Array list \<Rightarrow>
     (TemplateUsage \<times> Writer \<times> apc_Array list) option" where
  "insertTemplate SM DistrVariant File DistrRuleIdx AllTplDistrRules S =
     (let Usage = fst S; W = fst (snd S); InsertedTemplates = snd (snd S);
          Tpl = fst AllTplDistrRules
      in case map_of Usage Tpl of
           None \<Rightarrow> Some S
         | Some HasDefinition \<Rightarrow>
             if DistrRuleIdx < length DistrVariant \<and>
                DistrVariant ! DistrRuleIdx < length (snd AllTplDistrRules)
             then
               let DR = snd AllTplDistrRules ! (DistrVariant ! DistrRuleIdx);
                   Distribute = distributeText Tpl DR;
                   Where = getLocWithOffset (getLocForStartOfFile SM File) (PreambleSize SM File);
                   W1 = (if isInIncludeFile SM File
                         then W\<lparr>Diags := Diags W @
                                [Diag (Some Where) err_apc_insert_dvm_directive [trim Distribute],
                                 Diag (Some Where) note_apc_insert_include_prevent []]\<rparr>
                         else W);
                   Distribute1 = Distribute @ (if HasDefinition then ''extern'' else []) @
                                 ''void *'' @ GetShortName Tpl @ '';\<newline>\<newline>'';
                   Usage1 = (if HasDefinition then Usage else alist_update Tpl True Usage);
                   Where1 = getLocationToTransform SM W1 Where
               in Some (Usage1,
                        W1\<lparr>Edits := Edits W1 @ [InsertTextBefore Where1 Distribute1],
                           mTransformedFiles :=
                             try_emplace (mTransformedFiles W1) (getFilename SM Where1) File\<rparr>,
                        List.insert Tpl InsertedTemplates)
             else None)"

fun insertDistibutionRules ::
    "SourceManager \<Rightarrow> nat list \<Rightarrow> FileID \<Rightarrow> nat \<Rightarrow> DistrRules \<Rightarrow>
     TemplateUsage \<times> Writer \<times> apc_Array list \<Rightarrow>
     (TemplateUsage \<times> Writer \<times> apc_Array list) option" where
  "insertDistibutionRules SM DistrVariant File DistrRuleIdx [] S = Some S"
| "insertDistibutionRules SM DistrVariant File DistrRuleIdx (Rule # Rules) S =
     (case insertTemplate SM DistrVariant File DistrRuleIdx Rule S of
        None \<Rightarrow> None
      | Some S' \<Rightarrow> insertDistibutionRules SM DistrVariant File (Suc DistrRuleIdx) Rules S')"

text \<open>
  The outer loop over the files of \<open>Templates\<close>; the state is the part of \<open>Templates\<close>
  already processed, the writer and \<^verbatim>\<open>InsertedTemplates\<close>.
\<close>

fun insertDistibutionFiles ::
    "SourceManager \<Rightarrow> nat list \<Rightarrow> DistrRules \<Rightarrow> TemplateInFileUsage \<Rightarrow>
     TemplateInFileUsage \<times> Writer \<times> apc_Array list \<Rightarrow>
     (TemplateInFileUsage \<times> Writer \<times> apc_Array list) option" where
  "insertDistibutionFiles SM DistrVariant distrRules [] S = Some S"
| "insertDistibutionFiles SM DistrVariant distrRules (File # Files) S =
     (case insertDistibutionRules SM DistrVariant (fst File) 0 distrRules
             (snd File, fst (snd S), snd (snd S)) of
        None \<Rightarrow> None
      | Some S' \<Rightarrow>
          insertDistibutionFiles SM DistrVariant distrRules Files
            (fst S @ [(fst File, fst S')], fst (snd S'), snd (snd S')))"

text \<open>
  \<^verbatim>\<open>insertDistibution\<close>: \<open>DistrVariant\<close> is \<^verbatim>\<open>Region.GetCurrentVariant()\<close>.  The result is
  \<open>Templates\<close> with the flags as the function leaves them, and the writer.
\<close>

definition insertDistibution ::
    "SourceManager \<Rightarrow> nat list \<Rightarrow> DistrRules \<Rightarrow> TemplateInFileUsage \<Rightarrow> Writer \<Rightarrow>
     (TemplateInFileUsage \<times> Writer) option" where
  "insertDistibution SM DistrVariant distrRules Templates W =
     (case insertDistibutionFiles SM DistrVariant distrRules Templates ([], W, []) of
        None \<Rightarrow> None
      | Some S \<Rightarrow>
          let W1 = fst (snd S); InsertedTemplates = snd (snd S)
          in Some (fst S,
                   if length distrRules \<noteq> length InsertedTemplates
                   then W1\<lparr>Diags := Diags W1 @
                          map (\<lambda>TplInfo. Diag None err_apc_insert_template
                                           [GetShortName (fst TplInfo)])
                            (filter (\<lambda>TplInfo. fst TplInfo \<notin> set InsertedTemplates) distrRules)\<rparr>
                   else W1))"

section \<open>Dependence facts and directive items (\<^verbatim>\<open>DVMHSMAutoPar.cpp\<close>)\<close>

text \<open>
  \<^verbatim>\<open>SortedVarListT\<close> is a \<^verbatim>\<open>std::set<std::string>\<close>: the model is the sequence in which the
  set is iterated, the strings in ascending order.
\<close>

type_synonym SortedVarListT = "string list"

definition set_insert :: "string \<Rightarrow> SortedVarListT \<Rightarrow> SortedVarListT" where
  "set_insert V Vars = (if V \<in> set Vars then Vars else insort V Vars)"

definition set_erase :: "string \<Rightarrow> SortedVarListT \<Rightarrow> SortedVarListT" where
  "set_erase V Vars = removeAll V Vars"

definition set_insert_range :: "string list \<Rightarrow> SortedVarListT \<Rightarrow> SortedVarListT" where
  "set_insert_range Vs Vars = fold set_insert Vs Vars"

text \<open>
  Modelled from the spec: the enumeration \<^verbatim>\<open>trait::Reduction::Kind\<close>, whose declaration is
  not among the sources.  The kinds are in the order of the specification (sum, product,
  logical-or, logical-and, bitwise-xor, max, min), which is the order of the cases in
  \<^verbatim>\<open>addReductionIfNeed\<close>; \<^verbatim>\<open>RK_First\<close> is the first of them and \<^verbatim>\<open>RK_NumberOf\<close> their number.
\<close>

datatype ReductionKind = RK_Add | RK_Mult | RK_Or | RK_And | RK_Xor | RK_Max | RK_Min

definition ReductionKinds :: "ReductionKind list" where
  "ReductionKinds = [RK_Add, RK_Mult, RK_Or, RK_And, RK_Xor, RK_Max, RK_Min]"

text \<open>
  \<^verbatim>\<open>ReductionVarListT\<close> is a \<^verbatim>\<open>std::array\<close> of \<^verbatim>\<open>RK_NumberOf\<close> variable sets, one per kind:
  a list of seven variable lists.
\<close>

type_synonym ReductionVarListT = "SortedVarListT list"

text \<open>
  An \<^verbatim>\<open>llvm::APSInt\<close> of 64 bits: the bits and the signedness flag.  \<^verbatim>\<open>isNegative\<close> holds
  for a signed value with the sign bit set.
\<close>

record APSInt =
  Bits :: "64 word"
  IsUnsigned :: bool

definition isNegative :: "APSInt \<Rightarrow> bool" where
  "isNegative X = (\<not> IsUnsigned X \<and> sint (Bits X) < 0)"

definition APSInt_of_int :: "int \<Rightarrow> APSInt" where
  "APSInt_of_int i = \<lparr>Bits = word_of_int i, IsUnsigned = False\<rparr>"

text \<open>
  \<^verbatim>\<open>trait::DIDependence\<close>: a distance may be unknown; a distance range is the pair of the
  lowest and the highest distance of one loop level; a distance vector has one range per
  level, the outermost first.  \<^verbatim>\<open>DistanceInfo\<close> holds the vectors of the flow and of the
  anti dependence of a variable.
\<close>

type_synonym Distance = "APSInt option"

type_synonym DistanceRange = "Distance \<times> Distance"

type_synonym DistanceVector = "DistanceRange list"

record DistanceInfo =
  Flow :: DistanceVector
  Anti :: DistanceVector

text \<open>The dependence facts of one loop (\<^verbatim>\<open>ASTRegionAnalysis.getDependenceInfo()\<close>); the
  map of the regular dependences is the list of its entries in key order.  \<open>evaluateDefUse\<close>
  is the result of the call of that name on the analysis of the loop.\<close>

record ASTDepInfo =
  getFirstPrivate :: SortedVarListT
  getLastPrivate :: SortedVarListT
  getPrivate :: SortedVarListT
  getReadOccurred :: SortedVarListT
  getWriteOccurred :: SortedVarListT
  getInduction :: string
  getReduction :: ReductionVarListT
  getDependence :: "(string \<times> DistanceInfo) list"
  evaluateDefUse :: bool

text \<open>
  Array accesses (\<^verbatim>\<open>DIArrayAccessInfo\<close>).  An \<^verbatim>\<open>ObjectID\<close> is a metadata node, 0 the null
  pointer.  A subscript of an access is null, affine (its dimension and its monoms, each a
  column and a value) or of another kind.  \<^verbatim>\<open>array_accesses(Array, Scope)\<close> are the accesses
  of the scope to the array.
\<close>

type_synonym ObjectID = nat

datatype DIMemory = DIEstimateMemory nat string | DIUnknownMemory nat

datatype DISubscript =
    DIAffineSubscript nat "(ObjectID \<times> APSInt) list"
  | DIOtherSubscript nat

record DIArrayAccess =
  getArray :: DIMemory
  Subscripts :: "DISubscript option list"

type_synonym DIArrayAccessInfo = "ObjectID \<Rightarrow> DIArrayAccess list"

definition array_accesses :: "DIArrayAccessInfo \<Rightarrow> DIMemory \<Rightarrow> ObjectID \<Rightarrow> DIArrayAccess list" where
  "array_accesses AccessInfo Array Scope =
     filter (\<lambda>Access. getArray Access = Array) (AccessInfo Scope)"

text \<open>
  What \<^verbatim>\<open>exploitParallelism\<close> reads of the loop and of the analyses of the provider:
  \<^item> \<open>isHostOnly\<close>: \<^verbatim>\<open>PL[IR.getLoop()].isHostOnly()\<close>;
  \<^item> \<open>inPerfectInfo\<close>: \<^verbatim>\<open>PerfectInfo.count(&IR)\<close> is not zero;
  \<^item> \<open>ConstStep\<close>: the signed value of the step of the canonical loop when the step is a
    constant;
  \<^item> \<open>getAccessInfo\<close>: the array access information, when it is available.
\<close>

record DFLoop =
  getLoopID :: ObjectID
  isHostOnly :: bool
  inPerfectInfo :: bool
  getNumRegions :: nat
  ConstStep :: "int option"
  getAccessInfo :: "DIArrayAccessInfo option"

text \<open>The \<^verbatim>\<open>parallel\<close> directive item: its clauses, its depth ceiling and the final flag.\<close>

record PragmaParallel =
  clPrivate :: SortedVarListT
  clReduction :: ReductionVarListT
  clDependence :: "string \<rightharpoonup> DistanceVector"
  clInduction :: "ObjectID list"
  mPossibleAcrossDepth :: nat
  mIsFinal :: bool

record PragmaRegion =
  rgPrivate :: SortedVarListT
  rgReadOccurred :: SortedVarListT
  rgWriteOccurred :: SortedVarListT
  mHostOnly :: bool

text \<open>
  The items of the entry and exit blocks of a parallel location.  \<open>Parallel\<close> stands for
  the parallel item that \<^verbatim>\<open>exploitParallelism\<close> returns, which the block shares with the
  caller.
\<close>

datatype ParallelItem =
    Actual SortedVarListT
  | Region PragmaRegion
  | Parallel
  | GetActual SortedVarListT
  | Marker

section \<open>Regular dependences (\<^verbatim>\<open>processRegularDependenceis\<close>)\<close>

text \<open>
  The lambda \<^verbatim>\<open>updatePAD\<close> for one distance vector.  Reading a distance that is unknown
  dereferences an empty \<^verbatim>\<open>Optional\<close>: the result \<open>None\<close>.  The comparison of \<^verbatim>\<open>Revert\<close>,
  made unsigned, with \<^verbatim>\<open>MinDepth\<close> is the unsigned comparison of the bits.
\<close>

fun scanPAD :: "APSInt \<Rightarrow> DistanceVector \<Rightarrow> nat \<Rightarrow> nat option" where
  "scanPAD MinDepth [] PAD = Some PAD"
| "scanPAD MinDepth (R # Rs) PAD =
     (case fst R of
        None \<Rightarrow> None
      | Some D \<Rightarrow>
          if isNegative D \<and> Bits MinDepth \<le> - Bits D then Some PAD
          else scanPAD MinDepth Rs (Suc PAD))"

definition updatePAD :: "DistanceVector \<Rightarrow> nat \<Rightarrow> nat option" where
  "updatePAD Dist PossibleAcrossDepth =
     (case Dist of
        [] \<Rightarrow> Some PossibleAcrossDepth
      | R # Rs \<Rightarrow>
          (case fst R of
             None \<Rightarrow> None
           | Some MinDepth \<Rightarrow>
               map_option (min PossibleAcrossDepth) (scanPAD MinDepth Rs 1)))"

text \<open>
  The three nested loops over the accesses to the array, their subscripts and the monoms
  of a subscript.  \<open>None\<close> is \<^verbatim>\<open>return false\<close>.  The state of the monom loop is
  \<^verbatim>\<open>AnotherColumn\<close> and \<^verbatim>\<open>DependentDim\<close>.
\<close>

fun checkMonoms ::
    "ObjectID \<Rightarrow> nat \<Rightarrow> (ObjectID \<times> APSInt) list \<Rightarrow> ObjectID \<times> nat option \<Rightarrow>
     (ObjectID \<times> nat option) option" where
  "checkMonoms LoopID Dim [] S = Some S"
| "checkMonoms LoopID Dim (Monom # Monoms) S =
     (let AnotherColumn = fst S; DependentDim = snd S
      in if fst Monom = LoopID
         then if AnotherColumn \<noteq> 0 \<or> (DependentDim \<noteq> None \<and> DependentDim \<noteq> Some Dim)
              then None
              else checkMonoms LoopID Dim Monoms (AnotherColumn, Some Dim)
         else if DependentDim = Some Dim then None
              else checkMonoms LoopID Dim Monoms (fst Monom, DependentDim))"

fun checkSubscripts ::
    "ObjectID \<Rightarrow> DISubscript option list \<Rightarrow> nat option \<Rightarrow> nat option option" where
  "checkSubscripts LoopID [] DependentDim = Some DependentDim"
| "checkSubscripts LoopID (Subscript # Rest) DependentDim =
     (case Subscript of
        Some (DIAffineSubscript Dim Monoms) \<Rightarrow>
          (case checkMonoms LoopID Dim Monoms (0, DependentDim) of
             None \<Rightarrow> None
           | Some S \<Rightarrow> checkSubscripts LoopID Rest (snd S))
      | _ \<Rightarrow> None)"

fun checkAccesses ::
    "ObjectID \<Rightarrow> DIArrayAccess list \<Rightarrow> nat option \<times> nat \<Rightarrow> (nat option \<times> nat) option" where
  "checkAccesses LoopID [] S = Some S"
| "checkAccesses LoopID (Access # Rest) S =
     (case checkSubscripts LoopID (Subscripts Access) (fst S) of
        None \<Rightarrow> None
      | Some DependentDim \<Rightarrow>
          checkAccesses LoopID Rest (DependentDim, max (snd S) (length (Subscripts Access))))"

text \<open>
  The dependent dimension of the array of a dependence and the number of its dimensions:
  the part of the loop body before \<^verbatim>\<open>updatePAD\<close>.  \<open>None\<close> is \<^verbatim>\<open>return false\<close> (no access
  to a variable of that name, a subscript that is not affine, more than one dependent
  dimension, no dependent dimension).
\<close>

definition isAccessTo :: "string \<Rightarrow> DIArrayAccess \<Rightarrow> bool" where
  "isAccessTo Name Access =
     (case getArray Access of DIEstimateMemory M Var \<Rightarrow> Var = Name | DIUnknownMemory M \<Rightarrow> False)"

definition findDependentDim ::
    "DIArrayAccessInfo \<Rightarrow> ObjectID \<Rightarrow> string \<Rightarrow> (nat \<times> nat) option" where
  "findDependentDim AccessInfo LoopID Name =
     (case List.find (isAccessTo Name) (AccessInfo LoopID) of
        None \<Rightarrow> None
      | Some Access \<Rightarrow>
          (case checkAccesses LoopID (array_accesses AccessInfo (getArray Access) LoopID)
                  (None, 0) of
             None \<Rightarrow> None
           | Some S \<Rightarrow>
               (case fst S of None \<Rightarrow> None | Some Dim \<Rightarrow> Some (Dim, snd S))))"

text \<open>The lambda \<^verbatim>\<open>getDistance\<close>: the second component of the first range, if there is one.\<close>

definition getDistance :: "DistanceVector \<Rightarrow> Distance" where
  "getDistance Dist = (case Dist of [] \<Rightarrow> None | R # Rs \<Rightarrow> snd R)"

text \<open>\<^verbatim>\<open>SmallVector::resize\<close> with value-initialised new elements.\<close>

definition resize :: "nat \<Rightarrow> DistanceVector \<Rightarrow> DistanceVector" where
  "resize N V = take N V @ replicate (N - length V) (None, None)"

text \<open>
  The body of the loop over the dependences; the state is \<^verbatim>\<open>PossibleAcrossDepth\<close> and the
  parallel item.  The result \<open>Some (Inl P)\<close> is \<^verbatim>\<open>return false\<close> with the item as it is
  then, \<open>Some (Inr S)\<close> the state for the next dependence, and \<open>None\<close> undefined behaviour
  (an unknown distance read by \<^verbatim>\<open>updatePAD\<close>, a dependent dimension that is not an index
  of the resized vector).
\<close>

definition processDependence ::
    "DIArrayAccessInfo \<Rightarrow> ObjectID \<Rightarrow> int \<Rightarrow> string \<times> DistanceInfo \<Rightarrow> nat \<times> PragmaParallel \<Rightarrow>
     (PragmaParallel + nat \<times> PragmaParallel) option" where
  "processDependence AccessInfo LoopID Step Dep S =
     (let PossibleAcrossDepth = fst S; P = snd S
      in case findDependentDim AccessInfo LoopID (fst Dep) of
           None \<Rightarrow> Some (Inl P)
         | Some (DependentDim, NumberOfDims) \<Rightarrow>
             (case updatePAD (Flow (snd Dep)) PossibleAcrossDepth of
                None \<Rightarrow> None
              | Some PAD1 \<Rightarrow>
                  (case updatePAD (Anti (snd Dep)) PAD1 of
                     None \<Rightarrow> None
                   | Some PAD2 \<Rightarrow>
                       let V = resize NumberOfDims
                                 (case clDependence P (fst Dep) of None \<Rightarrow> [] | Some V0 \<Rightarrow> V0);
                           Across = (if Step < 0
                                     then (getDistance (Anti (snd Dep)),
                                           getDistance (Flow (snd Dep)))
                                     else (getDistance (Flow (snd Dep)),
                                           getDistance (Anti (snd Dep))))
                       in if DependentDim < NumberOfDims
                          then Some (Inr (PAD2,
                                 P\<lparr>clDependence :=
                                      (clDependence P)(fst Dep \<mapsto> V[DependentDim := Across])\<rparr>))
                          else None)))"

fun processDependences ::
    "DIArrayAccessInfo \<Rightarrow> ObjectID \<Rightarrow> int \<Rightarrow> (string \<times> DistanceInfo) list \<Rightarrow> nat \<times> PragmaParallel \<Rightarrow>
     (PragmaParallel + nat \<times> PragmaParallel) option" where
  "processDependences AccessInfo LoopID Step [] S = Some (Inr S)"
| "processDependences AccessInfo LoopID Step (Dep # Deps) S =
     (case processDependence AccessInfo LoopID Step Dep S of
        None \<Rightarrow> None
      | Some (Inl P) \<Rightarrow> Some (Inl P)
      | Some (Inr S') \<Rightarrow> processDependences AccessInfo LoopID Step Deps S')"

text \<open>
  The initial value of \<^verbatim>\<open>PossibleAcrossDepth\<close>: the number of levels of the flow
  distances of the first dependence, or of its anti distances when it has no flow
  distance.
\<close>

definition initialAcrossDepth :: "(string \<times> DistanceInfo) list \<Rightarrow> nat" where
  "initialAcrossDepth Deps =
     (case Deps of
        [] \<Rightarrow> 0
      | First # Others \<Rightarrow>
          if Flow (snd First) = [] then length (Anti (snd First))
          else length (Flow (snd First)))"

text \<open>
  \<^verbatim>\<open>processRegularDependenceis\<close>: the result is the returned flag and the parallel item, or
  \<open>None\<close> for undefined behaviour.  The two warnings on the path of the non-constant step
  are the only diagnostics of the function and are not part of the state.  The canonical
  loop information of the loop is taken to exist.
\<close>

definition processRegularDependenceis ::
    "DFLoop \<Rightarrow> ASTDepInfo \<Rightarrow> PragmaParallel \<Rightarrow> (bool \<times> PragmaParallel) option" where
  "processRegularDependenceis DFL ASTDepInfo DVMHParallel =
     (if getDependence ASTDepInfo = [] then Some (True, DVMHParallel)
      else case ConstStep DFL of
             None \<Rightarrow> Some (False, DVMHParallel)
           | Some Step \<Rightarrow>
               (case getAccessInfo DFL of
                  None \<Rightarrow> Some (False, DVMHParallel)
                | Some AccessInfo \<Rightarrow>
                    (case processDependences AccessInfo (getLoopID DFL) Step
                            (getDependence ASTDepInfo)
                            (initialAcrossDepth (getDependence ASTDepInfo), DVMHParallel) of
                       None \<Rightarrow> None
                     | Some (Inl P) \<Rightarrow> Some (False, P)
                     | Some (Inr S) \<Rightarrow>
                         let PossibleAcrossDepth = fst S + length (clInduction (snd S))
                         in Some (True,
                              (snd S)\<lparr>mPossibleAcrossDepth :=
                                 (if mPossibleAcrossDepth (snd S) = 0 then PossibleAcrossDepth
                                  else min (mPossibleAcrossDepth (snd S))
                                         PossibleAcrossDepth)\<rparr>))))"

section \<open>Loop classification (\<^verbatim>\<open>exploitParallelism\<close>)\<close>

text \<open>
  The branch \<^verbatim>\<open>if (PI)\<close>: an existing item and the next loop.  The flag of the result
  tells whether control goes on to the statements after the branch (\<open>True\<close>) or the
  function returns the item here (\<open>False\<close>).
\<close>

definition extendParallelItem ::
    "DFLoop \<Rightarrow> ASTDepInfo \<Rightarrow> PragmaParallel \<Rightarrow> (bool \<times> PragmaParallel) option" where
  "extendParallelItem IR ASTDepInfo PI =
     (let DVMHParallel =
            PI\<lparr>clPrivate := set_erase (getInduction ASTDepInfo) (clPrivate PI)\<rparr>
      in if isHostOnly IR \<or>
            getPrivate ASTDepInfo \<noteq> clPrivate DVMHParallel \<or>
            getReduction ASTDepInfo \<noteq> clReduction DVMHParallel
         then Some (False,
                DVMHParallel\<lparr>clPrivate :=
                                set_insert (getInduction ASTDepInfo) (clPrivate DVMHParallel),
                              mIsFinal := True\<rparr>)
         else case processRegularDependenceis IR ASTDepInfo DVMHParallel of
                None \<Rightarrow> None
              | Some R \<Rightarrow>
                  if fst R then Some (True, snd R)
                  else Some (False, (snd R)\<lparr>mIsFinal := True\<rparr>))"

text \<open>
  The branch \<^verbatim>\<open>else\<close>: a new parallel item, with its region, \<^verbatim>\<open>actual\<close> and \<^verbatim>\<open>get_actual\<close>
  items when the loop is localized.  The result is the item (\<open>None\<close> for \<^verbatim>\<open>return nullptr\<close>)
  and the entry and exit blocks of the new parallel location.
\<close>

definition createParallelItem ::
    "DFLoop \<Rightarrow> ASTDepInfo \<Rightarrow>
     (PragmaParallel option \<times> ParallelItem list \<times> ParallelItem list) option" where
  "createParallelItem IR ASTDepInfo =
     (let Localized = evaluateDefUse ASTDepInfo;
          DVMHParallel =
            \<lparr>clPrivate = set_insert_range (getPrivate ASTDepInfo) [],
             clReduction = map (\<lambda>Vars. set_insert_range Vars []) (getReduction ASTDepInfo),
             clDependence = Map.empty, clInduction = [],
             mPossibleAcrossDepth = 0, mIsFinal = False\<rparr>
      in case processRegularDependenceis IR ASTDepInfo DVMHParallel of
           None \<Rightarrow> None
         | Some R \<Rightarrow>
             if \<not> fst R then Some (None, [], [])
             else
               let Staged = (\<not> isHostOnly IR \<and> Localized);
                   DVMHActual =
                     (if Staged \<and> getReadOccurred ASTDepInfo \<noteq> []
                      then [Actual (set_insert_range (getReadOccurred ASTDepInfo) [])] else []);
                   DVMHGetActual =
                     (if Staged \<and> getWriteOccurred ASTDepInfo \<noteq> []
                      then [GetActual (set_insert_range (getWriteOccurred ASTDepInfo) [])]
                      else []);
                   DVMHRegion =
                     (if \<not> Localized then []
                      else if Staged
                      then [Region
                              \<lparr>rgPrivate = set_insert_range (getPrivate ASTDepInfo) [],
                               rgReadOccurred = set_insert_range (getReadOccurred ASTDepInfo) [],
                               rgWriteOccurred = set_insert_range (getWriteOccurred ASTDepInfo) [],
                               mHostOnly = False\<rparr>]
                      else [Region \<lparr>rgPrivate = [], rgReadOccurred = [], rgWriteOccurred = [],
                                    mHostOnly = True\<rparr>]);
                   PI = (if \<not> Staged \<and> getDependence ASTDepInfo = []
                         then (snd R)\<lparr>mIsFinal := True\<rparr> else snd R)
               in Some (Some PI,
                        DVMHActual @ DVMHRegion @ [Parallel],
                        (if Localized then [Marker] else []) @ DVMHGetActual))"

text \<open>
  The statements after the branch: the loop is added to the induction sequence, and the
  item is finalized when the loop is not in a perfect nest, has no region, or the sequence
  has reached the depth ceiling.
\<close>

definition addInduction :: "DFLoop \<Rightarrow> PragmaParallel \<Rightarrow> PragmaParallel" where
  "addInduction IR PI0 =
     (let PI = PI0\<lparr>clInduction := clInduction PI0 @ [getLoopID IR]\<rparr>
      in if \<not> mIsFinal PI \<and>
            (\<not> inPerfectInfo IR \<or> getNumRegions IR = 0 \<or>
             (mPossibleAcrossDepth PI \<noteq> 0 \<and>
              length (clInduction PI) = mPossibleAcrossDepth PI))
         then PI\<lparr>mIsFinal := True\<rparr>
         else PI)"

definition exploitParallelism ::
    "DFLoop \<Rightarrow> ASTDepInfo \<Rightarrow> PragmaParallel option \<Rightarrow>
     (PragmaParallel option \<times> ParallelItem list \<times> ParallelItem list) option" where
  "exploitParallelism IR ASTDepInfo PI =
     (if getFirstPrivate ASTDepInfo \<noteq> [] \<or> getLastPrivate ASTDepInfo \<noteq> [] \<or>
         getInduction ASTDepInfo = []
      then Some (map_option (\<lambda>P. P\<lparr>mIsFinal := True\<rparr>) PI, [], [])
      else case PI of
             Some P \<Rightarrow>
               (case extendParallelItem IR ASTDepInfo P of
                  None \<Rightarrow> None
                | Some R \<Rightarrow>
                    Some (Some (if fst R then addInduction IR (snd R) else snd R), [], []))
           | None \<Rightarrow>
               (case createParallelItem IR ASTDepInfo of
                  None \<Rightarrow> None
                | Some R \<Rightarrow>
                    (case fst R of
                       None \<Rightarrow> Some (None, [], [])
                     | Some P \<Rightarrow> Some (Some (addInduction IR P), snd R))))"

section \<open>Reduction clauses (\<^verbatim>\<open>addReductionIfNeed\<close>)\<close>

text \<open>
  The token that the \<^verbatim>\<open>switch\<close> leaves in \<^verbatim>\<open>RedKind\<close>.  The case of \<^verbatim>\<open>RK_Xor\<close> evaluates
  \<^verbatim>\<open>RedKind + "xor "\<close> and drops the result, so that \<^verbatim>\<open>RedKind\<close> stays empty.
\<close>

definition RedKind :: "ReductionKind \<Rightarrow> string" where
  "RedKind K =
     (case K of
        RK_Add \<Rightarrow> ''sum'' | RK_Mult \<Rightarrow> ''product'' | RK_Or \<Rightarrow> ''or'' | RK_And \<Rightarrow> ''and''
      | RK_Xor \<Rightarrow> [] | RK_Max \<Rightarrow> ''max'' | RK_Min \<Rightarrow> ''min'')"

text \<open>The text appended for one kind: nothing for an empty list of variables.\<close>

definition reductionGroup :: "ReductionKind \<Rightarrow> SortedVarListT \<Rightarrow> string" where
  "reductionGroup K Vars =
     (case Vars of
        [] \<Rightarrow> []
      | V # Rest \<Rightarrow>
          ''reduction'' @ ''('' @ RedKind K @ ''('' @ V @ '')'' @
          concat (map (\<lambda>V'. '','' @ RedKind K @ ''('' @ V' @ '')'') Rest) @ '')'')"

definition addReductionIfNeed :: "ReductionVarListT \<Rightarrow> string \<Rightarrow> string" where
  "addReductionIfNeed VarInfoList ParallelFor =
     ParallelFor @
     concat (map (\<lambda>KV. reductionGroup (fst KV) (snd KV)) (zip ReductionKinds VarInfoList))"

text \<open>
  The kind tokens as the specification lists them: sum, product, or, and, xor, max, min.
\<close>

definition specKindToken :: "ReductionKind \<Rightarrow> string" where
  "specKindToken K =
     (case K of
        RK_Add \<Rightarrow> ''sum'' | RK_Mult \<Rightarrow> ''product'' | RK_Or \<Rightarrow> ''or'' | RK_And \<Rightarrow> ''and''
      | RK_Xor \<Rightarrow> ''xor'' | RK_Max \<Rightarrow> ''max'' | RK_Min \<Rightarrow> ''min'')"

section \<open>Predicates of the statements about the classification\<close>

text \<open>
  The loop extends the item \<open>P\<close>: it passes the entry test of \<^verbatim>\<open>exploitParallelism\<close> (no
  first-private and no last-private variable, an induction variable), it is not
  host-only, its private variables are those of the item without the induction variable
  of the loop, its reduction variables are those of the item, and
  \<^verbatim>\<open>processRegularDependenceis\<close> returns true.
\<close>

definition extendable :: "DFLoop \<Rightarrow> ASTDepInfo \<Rightarrow> PragmaParallel \<Rightarrow> bool" where
  "extendable IR D P =
     (getFirstPrivate D = [] \<and> getLastPrivate D = [] \<and> getInduction D \<noteq> [] \<and>
      \<not> isHostOnly IR \<and>
      getPrivate D = set_erase (getInduction D) (clPrivate P) \<and>
      getReduction D = clReduction P \<and>
      (case processRegularDependenceis IR D
              (P\<lparr>clPrivate := set_erase (getInduction D) (clPrivate P)\<rparr>) of
         None \<Rightarrow> False | Some R \<Rightarrow> fst R))"

text \<open>The condition of the claim: not host-only, and the private and reduction sets match.\<close>

definition clausesMatch :: "DFLoop \<Rightarrow> ASTDepInfo \<Rightarrow> PragmaParallel \<Rightarrow> bool" where
  "clausesMatch IR D P =
     (\<not> isHostOnly IR \<and>
      getPrivate D = set_erase (getInduction D) (clPrivate P) \<and>
      getReduction D = clReduction P)"

text \<open>Two items that differ at most in their dependence clause.\<close>

definition sameItem :: "PragmaParallel \<Rightarrow> PragmaParallel \<Rightarrow> bool" where
  "sameItem P P' =
     (clInduction P' = clInduction P \<and> mIsFinal P' = mIsFinal P \<and>
      mPossibleAcrossDepth P' = mPossibleAcrossDepth P \<and> clPrivate P' = clPrivate P \<and>
      clReduction P' = clReduction P)"

text \<open>
  The induction sequence does not exceed a non-zero depth ceiling (\<open>withinDepth\<close>), and is
  below it (\<open>belowDepth\<close>, the assertion at the head of \<^verbatim>\<open>processRegularDependenceis\<close>).
\<close>

definition withinDepth :: "PragmaParallel \<Rightarrow> bool" where
  "withinDepth P =
     (mPossibleAcrossDepth P = 0 \<or> length (clInduction P) \<le> mPossibleAcrossDepth P)"

definition belowDepth :: "PragmaParallel \<Rightarrow> bool" where
  "belowDepth P =
     (mPossibleAcrossDepth P = 0 \<or> length (clInduction P) < mPossibleAcrossDepth P)"

text \<open>
  The across pair of a dependence is in the dependence clause of \<open>P\<close>, at the dependent
  dimension of its array: the pair of the results of \<^verbatim>\<open>getDistance\<close> for the flow and the
  anti distances, swapped for a negative step.
\<close>

definition acrossStored ::
    "DIArrayAccessInfo \<Rightarrow> ObjectID \<Rightarrow> int \<Rightarrow> PragmaParallel \<Rightarrow> string \<times> DistanceInfo \<Rightarrow> bool" where
  "acrossStored AccessInfo LoopID Step P Dep =
     (case findDependentDim AccessInfo LoopID (fst Dep) of
        None \<Rightarrow> False
      | Some DN \<Rightarrow>
          (case clDependence P (fst Dep) of
             None \<Rightarrow> False
           | Some V \<Rightarrow>
               fst DN < length V \<and>
               V ! fst DN =
                 (if Step < 0
                  then (getDistance (Anti (snd Dep)), getDistance (Flow (snd Dep)))
                  else (getDistance (Flow (snd Dep)), getDistance (Anti (snd Dep))))))"

text \<open>
  The first regular dependence of the loop, if there is one, has a distance level: a flow
  distance, or an anti distance when it has no flow distance.
\<close>

definition firstDependenceHasLevel :: "ASTDepInfo \<Rightarrow> bool" where
  "firstDependenceHasLevel D =
     (getDependence D = [] \<or> 0 < initialAcrossDepth (getDependence D))"

text \<open>
  The lowest distance of the outermost level, the distance that the claim about the across
  pair names.
\<close>

definition minimalDistance :: "DistanceVector \<Rightarrow> Distance" where
  "minimalDistance Dist = (case Dist of [] \<Rightarrow> None | R # Rs \<Rightarrow> fst R)"

section \<open>Example inputs of the writer\<close>

text \<open>
  A source manager for the concrete runs below: \<^verbatim>\<open>main.c\<close> (file 1) holds the
  locations below 1000 and starts at location 1; the included \<^verbatim>\<open>decl.h\<close> (file 2)
  holds the locations from 1000 up to 1999; \<^verbatim>\<open>other.c\<close> (file 3) starts at location
  2000.  Location 20 is in the middle of a line that starts at 16.
\<close>

definition SM_example :: SourceManager where
  "SM_example =
     \<lparr>getFilename = (\<lambda>L. if L < 1000 then ''main.c''
                          else if L < 2000 then ''decl.h'' else ''other.c''),
      getFileID = (\<lambda>L. if L < 1000 then 1 else if L < 2000 then 2 else 3),
      getDecomposedLoc = (\<lambda>L. if L < 1000 then (1, unat L - 1)
                               else if L < 2000 then (2, unat L - 1000)
                               else (3, unat L - 2000)),
      getLocForStartOfFile = (\<lambda>F. if F = 1 then 1 else if F = 2 then 1000 else 2000),
      getStartOfLine = (\<lambda>L. if L = 20 then 16 else L),
      isInIncludeFile = (\<lambda>F. F = 2),
      PreambleSize = (\<lambda>F. 4)\<rparr>"

definition Writer_empty :: Writer where
  "Writer_empty = \<lparr>mTransformedFiles = Map.empty, mInsertedDirs = Map.empty,
                    Edits = [], Diags = []\<rparr>"

text \<open>The ledger after \<^verbatim>\<open>#pragma dvm array\<close> has been inserted at location 20.\<close>

definition W_array_at_20 :: Writer where
  "W_array_at_20 =
     \<lparr>mTransformedFiles = [''main.c'' \<mapsto> 1],
      mInsertedDirs = [20 \<mapsto> ''#pragma dvm array\<newline>''],
      Edits = [InsertTextBefore 20 ''#pragma dvm array\<newline>'',
               InsertTextBefore 20 ''\<newline>''],
      Diags = []\<rparr>"

text \<open>
  A variable \<^verbatim>\<open>A\<close> that is only declared (\<^verbatim>\<open>extern double A[100];\<close> in \<^verbatim>\<open>main.c\<close>, the
  statement starting at location 30 and the name at location 44), the text of its align
  directive, and the declaration info of a single-declarator statement.
\<close>

definition A_extern :: VarDecl where
  "A_extern = \<lparr>DeclAddr = 1, getName = ''A'', getLocation = 44, getLocStart = 30,
               isThisDeclarationADefinition = DeclarationOnly\<rparr>"

definition Align_A :: string where
  "Align_A = ''#pragma dvm array align([i] with T[i])\<newline>''"

definition Decls_A :: DeclarationInfoMap where
  "Decls_A = [44 \<mapsto> True]"

definition Import_none :: ASTImportInfo where
  "Import_none = \<lparr>RedeclLocs = Map.empty\<rparr>"

text \<open>A one-dimensional template \<^verbatim>\<open>T\<close> of size 100 with the single variant \<^verbatim>\<open>[block]\<close>.\<close>

definition Tpl_T :: apc_Array where
  "Tpl_T = \<lparr>ArrayAddr = 7, GetShortName = ''T'', GetSizes = [(0, 100)]\<rparr>"

definition distrRules_T :: DistrRules where
  "distrRules_T = [(Tpl_T, [[BLOCK]])]"

section \<open>Example inputs of the classification\<close>

text \<open>
  A nest of two loops, \<^verbatim>\<open>i\<close> (loop 101) around \<^verbatim>\<open>j\<close> (loop 102), that accesses \<^verbatim>\<open>A[i][j]\<close>;
  both are perfect, have a region and a constant step 1 and are not host-only.
\<close>

definition Access_A :: DIArrayAccess where
  "Access_A =
     \<lparr>getArray = DIEstimateMemory 1 ''A'',
      Subscripts = [Some (DIAffineSubscript 0 [(101, APSInt_of_int 1)]),
                    Some (DIAffineSubscript 1 [(102, APSInt_of_int 1)])]\<rparr>"

definition Loop_i :: DFLoop where
  "Loop_i = \<lparr>getLoopID = 101, isHostOnly = False, inPerfectInfo = True, getNumRegions = 1,
             ConstStep = Some 1, getAccessInfo = Some (\<lambda>Scope. [Access_A])\<rparr>"

definition Loop_j :: DFLoop where
  "Loop_j = \<lparr>getLoopID = 102, isHostOnly = False, inPerfectInfo = True, getNumRegions = 1,
             ConstStep = Some 1, getAccessInfo = Some (\<lambda>Scope. [Access_A])\<rparr>"

definition exact :: "int \<Rightarrow> DistanceRange" where
  "exact d = (Some (APSInt_of_int d), Some (APSInt_of_int d))"

definition between :: "int \<Rightarrow> int \<Rightarrow> DistanceRange" where
  "between lo hi = (Some (APSInt_of_int lo), Some (APSInt_of_int hi))"

definition noReduction :: ReductionVarListT where
  "noReduction = [[], [], [], [], [], [], []]"

text \<open>The facts of a loop with the induction variable \<open>I\<close> and the regular dependences \<open>Deps\<close>
  that has nothing else: no private, reduction or staged variable, not localized.\<close>

definition DepInfo :: "string \<Rightarrow> (string \<times> DistanceInfo) list \<Rightarrow> ASTDepInfo" where
  "DepInfo I Deps =
     \<lparr>getFirstPrivate = [], getLastPrivate = [], getPrivate = [], getReadOccurred = [],
      getWriteOccurred = [], getInduction = I, getReduction = noReduction,
      getDependence = Deps, evaluateDefUse = False\<rparr>"

text \<open>An open parallel item without clauses for the loops \<open>Nest\<close>, with the ceiling \<open>Depth\<close>.\<close>

definition OpenItem :: "ObjectID list \<Rightarrow> nat \<Rightarrow> PragmaParallel" where
  "OpenItem Nest Depth =
     \<lparr>clPrivate = [], clReduction = noReduction, clDependence = Map.empty,
      clInduction = Nest, mPossibleAcrossDepth = Depth, mIsFinal = False\<rparr>"

text \<open>The induction sequence, the depth ceiling and the final flag of an item.\<close>

definition itemSummary :: "PragmaParallel \<Rightarrow> ObjectID list \<times> nat \<times> bool" where
  "itemSummary P = (clInduction P, mPossibleAcrossDepth P, mIsFinal P)"

section \<open>Properties of the ledger\<close>

lemma try_emplace_keeps: "M K = Some V \<Longrightarrow> try_emplace M K' V' K = Some V"
  by (auto simp: try_emplace_def split: option.splits)

lemma try_emplace_same [simp]: "M K = Some V \<Longrightarrow> try_emplace M K V' = M"
  by (simp add: try_emplace_def)

lemma try_emplace_new [simp]: "M K = None \<Longrightarrow> try_emplace M K V = M(K \<mapsto> V)"
  by (simp add: try_emplace_def)

text \<open>
  A call with a text that differs from the text the resolved location is bound to: both
  copies of \<^verbatim>\<open>insertDirective\<close> only add the two diagnostics.  No call changes the text
  an occupied location is bound to.
\<close>

lemma insertDirective_rejects_different_text:
  "(mInsertedDirs W (getRawEncoding (getLocationToTransform SM W L)) = Some Prev \<and> Prev \<noteq> DirStr
      \<longrightarrow> insertDirective SM L DirStr W =
            W\<lparr>Diags := Diags W @
               [Diag (Some (getLocationToTransform SM W L)) err_apc_insert_dvm_directive
                  [trim DirStr],
                Diag (Some (getLocationToTransform SM W L)) note_apc_insert_multiple_directives
                  []]\<rparr>
        \<and> insertDirective_part_001 SM L DirStr W = insertDirective SM L DirStr W)
   \<and> (mInsertedDirs W K = Some T
      \<longrightarrow> mInsertedDirs (insertDirective SM L DirStr W) K = Some T
        \<and> mInsertedDirs (insertDirective_part_001 SM L DirStr W) K = Some T)"
  by (auto simp: insertDirective_def insertDirective_part_001_def Let_def try_emplace_keeps
           split: option.splits)

text \<open>On a location that is not bound yet the two copies do the same.\<close>

lemma insertDirective_part_001_unbound:
  "mInsertedDirs W (getRawEncoding (getLocationToTransform SM W L)) = None \<Longrightarrow>
   insertDirective_part_001 SM L T W = insertDirective SM L T W"
  by (simp add: insertDirective_def insertDirective_part_001_def Let_def)

lemma resolve_after_insert:
  assumes "decomposes SM L"
      and "mInsertedDirs W (getRawEncoding (getLocationToTransform SM W L)) = None"
  shows "getLocationToTransform SM (insertDirective SM L T W) L = getLocationToTransform SM W L"
proof (cases "mTransformedFiles W (getFilename SM L)")
  case None
  then have R: "getLocationToTransform SM W L = L"
    by (simp add: getLocationToTransform_def)
  with assms None show ?thesis
    by (simp add: insertDirective_def getLocationToTransform_def decomposes_def)
next
  case (Some F)
  then have "try_emplace (mTransformedFiles W) K V (getFilename SM L) = Some F" for K V
    by (rule try_emplace_keeps)
  with assms Some show ?thesis
    by (simp add: insertDirective_def getLocationToTransform_def Let_def)
qed

text \<open>
  In \<^verbatim>\<open>lib/APC/DVMHWriter.cpp\<close> a call with the text the resolved location is already
  bound to changes nothing, and a second call right after an inserting call is such a
  call.
\<close>

lemma insertDirective_same_text_noop:
  "(mInsertedDirs W (getRawEncoding (getLocationToTransform SM W L)) = Some T
      \<longrightarrow> insertDirective SM L T W = W)
   \<and> (decomposes SM L \<and> mInsertedDirs W (getRawEncoding (getLocationToTransform SM W L)) = None
      \<longrightarrow> insertDirective SM L T (insertDirective SM L T W) = insertDirective SM L T W)"
proof (intro conjI impI)
  assume "mInsertedDirs W (getRawEncoding (getLocationToTransform SM W L)) = Some T"
  then show "insertDirective SM L T W = W"
    by (simp add: insertDirective_def)
next
  assume A: "decomposes SM L \<and>
             mInsertedDirs W (getRawEncoding (getLocationToTransform SM W L)) = None"
  let ?W1 = "insertDirective SM L T W"
  have R: "getLocationToTransform SM ?W1 L = getLocationToTransform SM W L"
    using A by (simp add: resolve_after_insert)
  have "mInsertedDirs ?W1 (getRawEncoding (getLocationToTransform SM W L)) = Some T"
    using A by (simp add: insertDirective_def Let_def)
  with R show "insertDirective SM L T ?W1 = ?W1"
    by (simp add: insertDirective_def [of SM L T ?W1])
qed

text \<open>
  C1 (as amended).  A directive text \<open>T1\<close> is inserted at a location whose resolved
  location holds no directive yet, and then a different text \<open>T2\<close> is inserted at the same
  location.  The first call asks the rewriter for the insertion of \<open>T1\<close> (and of a newline
  when the location is not at the start of its line).  The second call changes neither
  the insertions nor the ledger: it only reports \<^verbatim>\<open>err_apc_insert_dvm_directive\<close> with the
  trimmed text of \<open>T2\<close>, followed by \<^verbatim>\<open>note_apc_insert_multiple_directives\<close>, both at the
  resolved location, which stays bound to \<open>T1\<close>.  So the edit of \<open>T2\<close> is not applied and the
  edit of \<open>T1\<close> stays.  The copy of the writer in \<^verbatim>\<open>src/unnamed/part_001\<close> does the same,
  and no call of either copy ever changes the text an occupied location is bound to.
\<close>

theorem insertDirective_conflict:
  assumes "decomposes SM L"
      and "mInsertedDirs W (getRawEncoding (getLocationToTransform SM W L)) = None"
      and "T1 \<noteq> T2"
  shows "Edits (insertDirective SM L T1 W) =
           Edits W @ InsertTextBefore (getLocationToTransform SM W L) T1 #
             (if getLocationToTransform SM W L \<noteq> getStartOfLine SM (getLocationToTransform SM W L)
              then [InsertTextBefore (getLocationToTransform SM W L) ''\<newline>''] else [])
         \<and> insertDirective SM L T2 (insertDirective SM L T1 W) =
             (insertDirective SM L T1 W)\<lparr>Diags := Diags W @
                [Diag (Some (getLocationToTransform SM W L)) err_apc_insert_dvm_directive
                   [trim T2],
                 Diag (Some (getLocationToTransform SM W L)) note_apc_insert_multiple_directives
                   []]\<rparr>
         \<and> Edits (insertDirective SM L T2 (insertDirective SM L T1 W)) =
             Edits (insertDirective SM L T1 W)
         \<and> mInsertedDirs (insertDirective SM L T2 (insertDirective SM L T1 W))
               (getRawEncoding (getLocationToTransform SM W L)) = Some T1
         \<and> insertDirective_part_001 SM L T2 (insertDirective_part_001 SM L T1 W) =
             insertDirective SM L T2 (insertDirective SM L T1 W)
         \<and> (mInsertedDirs W' K = Some T
             \<longrightarrow> mInsertedDirs (insertDirective SM L' D W') K = Some T
               \<and> mInsertedDirs (insertDirective_part_001 SM L' D W') K = Some T)"
proof -
  let ?R = "getLocationToTransform SM W L"
  let ?W1 = "insertDirective SM L T1 W"
  have edits: "Edits ?W1 = Edits W @ InsertTextBefore ?R T1 #
             (if ?R \<noteq> getStartOfLine SM ?R then [InsertTextBefore ?R ''\<newline>''] else [])"
    using assms(2) by (simp add: insertDirective_def Let_def)
  have diags: "Diags ?W1 = Diags W"
    using assms(2) by (simp add: insertDirective_def Let_def)
  have resolve: "getLocationToTransform SM ?W1 L = ?R"
    using assms(1,2) by (rule resolve_after_insert)
  have bound: "mInsertedDirs ?W1 (getRawEncoding ?R) = Some T1"
    using assms(2) by (simp add: insertDirective_def Let_def)
  from insertDirective_rejects_different_text [of ?W1 SM L T1 T2] resolve bound assms(3) diags
  have second: "insertDirective SM L T2 ?W1 =
      ?W1\<lparr>Diags := Diags W @
         [Diag (Some ?R) err_apc_insert_dvm_directive [trim T2],
          Diag (Some ?R) note_apc_insert_multiple_directives []]\<rparr>"
    and old: "insertDirective_part_001 SM L T2 ?W1 = insertDirective SM L T2 ?W1"
    by simp_all
  have first_old: "insertDirective_part_001 SM L T1 W = ?W1"
    using assms(2) by (rule insertDirective_part_001_unbound)
  have keep: "mInsertedDirs W' K = Some T
             \<longrightarrow> mInsertedDirs (insertDirective SM L' D W') K = Some T
               \<and> mInsertedDirs (insertDirective_part_001 SM L' D W') K = Some T"
    using insertDirective_rejects_different_text [of W' SM L' T D K T] by blast
  from edits second old first_old bound keep show ?thesis by simp
qed

lemma first_insertion_example:
  "insertDirective SM_example 20 ''#pragma dvm array\<newline>'' Writer_empty = W_array_at_20"
  by (simp add: insertDirective_def getLocationToTransform_def SM_example_def Writer_empty_def
        W_array_at_20_def getRawEncoding_def Let_def)

theorem insertDirective_conflict_witness:
  "decomposes SM_example 20
   \<and> insertDirective SM_example 20 ''#pragma dvm align\<newline>''
       (insertDirective SM_example 20 ''#pragma dvm array\<newline>'' Writer_empty) =
     W_array_at_20\<lparr>Diags :=
        [Diag (Some 20) err_apc_insert_dvm_directive [''#pragma dvm align''],
         Diag (Some 20) note_apc_insert_multiple_directives []]\<rparr>
   \<and> insertDirective_part_001 SM_example 20 ''#pragma dvm align\<newline>''
       (insertDirective_part_001 SM_example 20 ''#pragma dvm array\<newline>'' Writer_empty) =
     W_array_at_20\<lparr>Diags :=
        [Diag (Some 20) err_apc_insert_dvm_directive [''#pragma dvm align''],
         Diag (Some 20) note_apc_insert_multiple_directives []]\<rparr>"
proof -
  have h1: "decomposes SM_example 20"
    by (simp add: decomposes_def SM_example_def getLocWithOffset_def)
  have r: "getLocationToTransform SM_example Writer_empty 20 = 20"
    by (simp add: getLocationToTransform_def Writer_empty_def)
  have h2: "mInsertedDirs Writer_empty
              (getRawEncoding (getLocationToTransform SM_example Writer_empty 20)) = None"
    by (simp add: Writer_empty_def)
  have h3: "''#pragma dvm array\<newline>'' \<noteq> ''#pragma dvm align\<newline>''"
    by simp
  have t: "trim ''#pragma dvm align\<newline>'' = ''#pragma dvm align''"
    by (simp add: trim_def isTrimChar_def)
  have d: "Diags Writer_empty = []"
    by (simp add: Writer_empty_def)
  from insertDirective_conflict [OF h1 h2 h3] h1 show ?thesis
    by (simp add: r t d first_insertion_example)
qed

text \<open>
  C1 (as stated) fails in what it takes from the specification, that neither edit is
  materialized: after \<^verbatim>\<open>#pragma dvm array\<close> and then \<^verbatim>\<open>#pragma dvm align\<close> have been
  inserted at location 20 of an empty ledger, the insertion of the first directive and
  of its newline are in the rewriter; only the second directive is missing.
\<close>

theorem insertDirective_first_edit_stays:
  "Edits (insertDirective SM_example 20 ''#pragma dvm align\<newline>''
            (insertDirective SM_example 20 ''#pragma dvm array\<newline>'' Writer_empty)) =
     [InsertTextBefore 20 ''#pragma dvm array\<newline>'', InsertTextBefore 20 ''\<newline>'']
   \<and> Edits (insertDirective_part_001 SM_example 20 ''#pragma dvm align\<newline>''
            (insertDirective_part_001 SM_example 20 ''#pragma dvm array\<newline>'' Writer_empty)) =
     [InsertTextBefore 20 ''#pragma dvm array\<newline>'', InsertTextBefore 20 ''\<newline>'']"
  by (simp add: insertDirective_def insertDirective_part_001_def getLocationToTransform_def
        SM_example_def Writer_empty_def getRawEncoding_def getLocWithOffset_def Let_def)

text \<open>
  C2.  In the copy of the writer in \<^verbatim>\<open>src/unnamed/part_001\<close> the second of two calls with
  the same text at location 20 asks the rewriter for the insertion again: the directive
  and its newline are inserted twice.
\<close>

theorem insertDirective_part_001_inserts_twice:
  "Edits (insertDirective_part_001 SM_example 20 ''#pragma dvm array\<newline>''
            (insertDirective_part_001 SM_example 20 ''#pragma dvm array\<newline>'' Writer_empty)) =
     [InsertTextBefore 20 ''#pragma dvm array\<newline>'', InsertTextBefore 20 ''\<newline>'',
      InsertTextBefore 20 ''#pragma dvm array\<newline>'', InsertTextBefore 20 ''\<newline>'']"
  by (simp add: insertDirective_part_001_def getLocationToTransform_def SM_example_def
        Writer_empty_def getRawEncoding_def getLocWithOffset_def Let_def)

section \<open>Properties of the merged locations\<close>

lemma find_merged_Some:
  "find_merged M Loc = Some Locs \<Longrightarrow>
     Locs \<in> set M \<and> Locs \<noteq> [] \<and> hd Locs = Loc \<and> Loc \<in> set Locs"
  by (induction M Loc rule: find_merged.induct) (auto split: if_splits)

lemma find_merged_None:
  "wf_MergedLocations M \<Longrightarrow> (find_merged M Loc = None) = (Loc \<notin> hd ` set M)"
  by (induction M Loc rule: find_merged.induct) (auto simp: wf_MergedLocations_def)

lemma wf_MergedLocations_ctor: "wf_MergedLocations (MergedLocations ToLocs)"
  by (simp add: wf_MergedLocations_def MergedLocations_def list_all_iff)

lemma wf_push_back:
  "wf_MergedLocations M \<Longrightarrow> push_back M Ls = Some M' \<Longrightarrow> wf_MergedLocations M'"
  by (auto simp: wf_MergedLocations_def push_back_def list_all_iff split: if_splits
           dest!: in_set_dropD)

lemma map_hd_snoc:
  "list_all (\<lambda>Locs. Locs \<noteq> []) M \<Longrightarrow> length Ls \<le> length M \<Longrightarrow>
   map hd (map (\<lambda>(Locs, Loc). Locs @ [Loc]) (zip M Ls) @ drop (length Ls) M) = map hd M"
proof (induction M arbitrary: Ls)
  case Nil
  then show ?case by simp
next
  case (Cons Locs M)
  then show ?case by (cases Ls) auto
qed

text \<open>\<^verbatim>\<open>push_back\<close> keeps the original location at the head of every list.\<close>

lemma hd_push_back:
  "wf_MergedLocations M \<Longrightarrow> push_back M Ls = Some M' \<Longrightarrow> map hd M' = map hd M"
  using map_hd_snoc [of M Ls]
  by (auto simp: wf_MergedLocations_def push_back_def split: if_splits)

section \<open>Properties of the alignment and distribution planner\<close>

lemma insertsOnly_iff:
  "insertsOnly D W W' = (\<exists>Es. Edits W' = Edits W @ Es \<and> list_all (isTextOrNewline D) Es)"
proof
  assume "insertsOnly D W W'"
  then have "Edits W' = Edits W @ drop (length (Edits W)) (Edits W')"
    and "list_all (isTextOrNewline D) (drop (length (Edits W)) (Edits W'))"
    unfolding insertsOnly_def by (metis append_take_drop_id, simp)
  then show "\<exists>Es. Edits W' = Edits W @ Es \<and> list_all (isTextOrNewline D) Es" by blast
next
  assume "\<exists>Es. Edits W' = Edits W @ Es \<and> list_all (isTextOrNewline D) Es"
  then show "insertsOnly D W W'" by (auto simp: insertsOnly_def)
qed

lemma insertsOnly_refl: "insertsOnly D W W"
  by (simp add: insertsOnly_def)

lemma insertsOnly_Diags: "insertsOnly D W W' \<Longrightarrow> insertsOnly D W (W'\<lparr>Diags := X\<rparr>)"
  by (simp add: insertsOnly_def)

lemma insertsOnly_trans:
  "insertsOnly D W W1 \<Longrightarrow> insertsOnly D W1 W2 \<Longrightarrow> insertsOnly D W W2"
  by (auto simp: insertsOnly_iff)

lemma insertsOnly_insertDirective: "insertsOnly D W (insertDirective SM L D W)"
  by (auto simp: insertsOnly_iff insertDirective_def Let_def isTextOrNewline_def
           split: option.splits)

lemma insertsOnly_insertDataDirective:
  "insertsOnly D W (insertDataDirective SM DL Decls L D W)"
  by (simp add: insertDataDirective_def insertsOnly_insertDirective insertsOnly_Diags
        insertsOnly_refl)

lemma insertAliases_insertsOnly:
  "length Locs \<le> length StartLocs \<Longrightarrow>
   \<exists>W'. insertAliases SM Decls D RedeclLoc Locs StartLocs W = Some W' \<and> insertsOnly D W W'"
proof (induction Locs arbitrary: StartLocs W)
  case Nil
  then show ?case by (simp add: insertsOnly_refl)
next
  case (Cons L Locs)
  then obtain S Rest where S: "StartLocs = S # Rest" and len: "length Locs \<le> length Rest"
    by (cases StartLocs) auto
  show ?case
  proof (cases "L = RedeclLoc")
    case True
    with Cons.IH [OF len, of W] S show ?thesis by simp
  next
    case False
    let ?W1 = "insertDataDirective SM L Decls S D W"
    from Cons.IH [OF len, of ?W1] obtain W' where
      W': "insertAliases SM Decls D RedeclLoc Locs Rest ?W1 = Some W'" "insertsOnly D ?W1 W'"
      by blast
    have "insertsOnly D W W'"
      using insertsOnly_insertDataDirective W'(2) by (rule insertsOnly_trans)
    with W'(1) False S show ?thesis by simp
  qed
qed

lemma insertAlignmentRedecl_noDefinition:
  assumes "isThisDeclarationADefinition R \<noteq> Definition"
      and "isThisDeclarationADefinition R = TentativeDefinition \<longrightarrow>
             isInIncludeFile SM (getFileID SM (getLocStart R))"
      and "case RedeclLocs Import (DeclAddr R) of
             None \<Rightarrow> True
           | Some Merged \<Rightarrow>
               (case (find_merged Merged (getLocation R), find_merged Merged (getLocStart R)) of
                  (Some Locs, Some StartLocs) \<Rightarrow> length Locs \<le> length StartLocs
                | _ \<Rightarrow> False)"
  shows "\<exists>W'. insertAlignmentRedecl SM Import Decls Align Array R (0, W) = Some (0, W') \<and>
              insertsOnly Array W W' \<and>
              insertsOnly Array
                (insertDataDirective SM (getLocation R) Decls (getLocStart R) Array W) W'"
proof -
  let ?W1 = "insertDataDirective SM (getLocation R) Decls (getLocStart R) Array W"
  have S1: "(case isThisDeclarationADefinition R of
                  Definition \<Rightarrow> (0, W)
                | DeclarationOnly \<Rightarrow> (0, ?W1)
                | TentativeDefinition \<Rightarrow>
                    if isInvalid (0::SourceLocation)
                    then if isInIncludeFile SM (getFileID SM (getLocStart R))
                         then (0, ?W1)
                         else (getLocation R,
                               insertDataDirective SM (getLocation R) Decls (getLocStart R) Align W)
                    else (getLocation R,
                          insertDataDirective SM (getLocation R) Decls (getLocStart R) Align W))
            = (0, ?W1)"
    using assms(1,2) by (cases "isThisDeclarationADefinition R") (simp_all add: isInvalid_def)
  have W1: "insertsOnly Array W ?W1" by (rule insertsOnly_insertDataDirective)
  show ?thesis
  proof (cases "RedeclLocs Import (DeclAddr R)")
    case None
    with S1 W1 show ?thesis
      by (simp add: insertAlignmentRedecl_def Let_def insertsOnly_refl)
  next
    case (Some Merged)
    with assms(3) obtain Locs StartLocs where
      F: "find_merged Merged (getLocation R) = Some Locs"
         "find_merged Merged (getLocStart R) = Some StartLocs"
         "length Locs \<le> length StartLocs"
      by (auto split: option.splits)
    from insertAliases_insertsOnly [OF F(3), of SM Decls Array "getLocation R" ?W1]
    obtain W' where W': "insertAliases SM Decls Array (getLocation R) Locs StartLocs ?W1 = Some W'"
        "insertsOnly Array ?W1 W'" by blast
    have "insertsOnly Array W W'" using W1 W'(2) by (rule insertsOnly_trans)
    with Some F S1 W' show ?thesis by (simp add: insertAlignmentRedecl_def Let_def)
  qed
qed

lemma insertAlignmentLoop_noDefinition:
  "noDefinition SM Redecls \<Longrightarrow> importFits Import Redecls \<Longrightarrow>
   \<exists>W'. insertAlignmentLoop SM Import Decls Align Array Redecls (0, W) = Some (0, W') \<and>
        insertsOnly Array W W'"
proof (induction Redecls arbitrary: W)
  case Nil
  then show ?case by (simp add: insertsOnly_refl)
next
  case (Cons R Redecls)
  from Cons.prems have
    "\<exists>W1. insertAlignmentRedecl SM Import Decls Align Array R (0, W) = Some (0, W1) \<and>
          insertsOnly Array W W1 \<and>
          insertsOnly Array
            (insertDataDirective SM (getLocation R) Decls (getLocStart R) Array W) W1"
    by (intro insertAlignmentRedecl_noDefinition) (simp_all add: noDefinition_def importFits_def)
  then obtain W1 where W1: "insertAlignmentRedecl SM Import Decls Align Array R (0, W) = Some (0, W1)"
    "insertsOnly Array W W1" by blast
  from Cons.prems have "noDefinition SM Redecls" "importFits Import Redecls"
    by (simp_all add: noDefinition_def importFits_def)
  from Cons.IH [OF this, of W1] obtain W' where
    W': "insertAlignmentLoop SM Import Decls Align Array Redecls (0, W1) = Some (0, W')"
        "insertsOnly Array W1 W'" by blast
  have "insertsOnly Array W W'" using W1(2) W'(2) by (rule insertsOnly_trans)
  with W1(1) W'(1) show ?case by simp
qed

text \<open>
  The insertions of the whole loop follow those of the directive of its first
  redeclaration.
\<close>

lemma insertAlignmentLoop_noDefinition_first:
  assumes "noDefinition SM (R # Redecls)" and "importFits Import (R # Redecls)"
  shows "\<exists>W'. insertAlignmentLoop SM Import Decls Align Array (R # Redecls) (0, W) = Some (0, W') \<and>
              insertsOnly Array
                (insertDataDirective SM (getLocation R) Decls (getLocStart R) Array W) W'"
proof -
  from assms have
    "\<exists>W1. insertAlignmentRedecl SM Import Decls Align Array R (0, W) = Some (0, W1) \<and>
          insertsOnly Array W W1 \<and>
          insertsOnly Array
            (insertDataDirective SM (getLocation R) Decls (getLocStart R) Array W) W1"
    by (intro insertAlignmentRedecl_noDefinition) (simp_all add: noDefinition_def importFits_def)
  then obtain W1 where
    W1: "insertAlignmentRedecl SM Import Decls Align Array R (0, W) = Some (0, W1)"
        "insertsOnly Array
           (insertDataDirective SM (getLocation R) Decls (getLocStart R) Array W) W1"
    by blast
  from assms have "noDefinition SM Redecls" "importFits Import Redecls"
    by (simp_all add: noDefinition_def importFits_def)
  from insertAlignmentLoop_noDefinition [OF this, of Decls Align Array W1] obtain W' where
    W': "insertAlignmentLoop SM Import Decls Align Array Redecls (0, W1) = Some (0, W')"
        "insertsOnly Array W1 W'" by blast
  from W1(2) W'(2) have
    "insertsOnly Array
       (insertDataDirective SM (getLocation R) Decls (getLocStart R) Array W) W'"
    by (rule insertsOnly_trans)
  with W1(1) W'(1) show ?thesis by simp
qed

text \<open>
  A directive for a declaration whose statement start is not in a macro, whose statement
  is not known to declare several variables and whose resolved location holds no
  directive yet is inserted.
\<close>

lemma insertDataDirective_inserts:
  assumes "\<not> isMacroID Where" and "Decls (getRawEncoding DeclLoc) \<noteq> Some False"
      and "mInsertedDirs W (getRawEncoding (getLocationToTransform SM W Where)) = None"
  shows "InsertTextBefore (getLocationToTransform SM W Where) D \<in>
           set (Edits (insertDataDirective SM DeclLoc Decls Where D W))"
proof -
  from assms(1,2) have "insertDataDirective SM DeclLoc Decls Where D W = insertDirective SM Where D W"
    by (cases "Decls (getRawEncoding DeclLoc)") (auto simp: insertDataDirective_def)
  with assms(3) show ?thesis by (simp add: insertDirective_def Let_def)
qed

lemma insertsOnly_keeps_edit: "insertsOnly D W W' \<Longrightarrow> E \<in> set (Edits W) \<Longrightarrow> E \<in> set (Edits W')"
  by (auto simp: insertsOnly_iff)

lemma getDefinition_noDefinition: "noDefinition SM Redecls \<Longrightarrow> getDefinition Redecls = None"
  by (auto simp: getDefinition_def noDefinition_def find_None_iff list_all_iff)

text \<open>
  C9 (as amended).  When the variable has no definition for the writer (no redeclaration
  is a \<^verbatim>\<open>Definition\<close> and every tentative definition is in an include file),
  \<^verbatim>\<open>insertAlignment\<close> returns the invalid location, so that no template use is recorded
  for the rule, and its last two diagnostics are \<^verbatim>\<open>err_apc_insert_dvm_directive\<close> with the
  align text at the location of the variable and \<^verbatim>\<open>note_apc_no_proper_definition\<close> with
  its name.  No \<^verbatim>\<open>align\<close> directive is inserted: every insertion the call adds is the
  \<^verbatim>\<open>array\<close> directive (before a redeclaration) or a newline.  The \<^verbatim>\<open>array\<close> directive is
  inserted before the first redeclaration when the start of its statement is not in a
  macro, its statement is not known to declare several variables and its resolved
  location holds no directive yet.
\<close>

theorem insertAlignment_noDefinition:
  assumes "noDefinition SM Redecls" and "importFits Import Redecls"
  shows "\<exists>W'. insertAlignment SM Import Decls Align VD Redecls W = Some (0, W') \<and>
           insertsOnly (getPragmaText DvmArray) W W' \<and>
           (\<exists>D. Diags W' = D @
              [Diag (Some (getLocation VD)) err_apc_insert_dvm_directive [trim Align],
               Diag None note_apc_no_proper_definition [getName VD]]) \<and>
           collectTemplate SM 0 alignWith Templates = Templates \<and>
           (Redecls \<noteq> [] \<and> \<not> isMacroID (getLocStart (hd Redecls)) \<and>
            Decls (getRawEncoding (getLocation (hd Redecls))) \<noteq> Some False \<and>
            mInsertedDirs W
              (getRawEncoding (getLocationToTransform SM W (getLocStart (hd Redecls)))) = None
            \<longrightarrow> InsertTextBefore (getLocationToTransform SM W (getLocStart (hd Redecls)))
                  (getPragmaText DvmArray) \<in> set (Edits W'))"
proof -
  from insertAlignmentLoop_noDefinition [OF assms, of Decls Align "getPragmaText DvmArray" W]
  obtain W2 where W2:
    "insertAlignmentLoop SM Import Decls Align (getPragmaText DvmArray) Redecls (0, W) = Some (0, W2)"
    "insertsOnly (getPragmaText DvmArray) W W2" by blast
  let ?W' = "W2\<lparr>Diags := Diags W2 @
                [Diag (Some (getLocation VD)) err_apc_insert_dvm_directive [trim Align],
                 Diag None note_apc_no_proper_definition [getName VD]]\<rparr>"
  have run: "insertAlignment SM Import Decls Align VD Redecls W = Some (0, ?W')"
    using W2(1) getDefinition_noDefinition [OF assms(1)]
    by (simp add: insertAlignment_def isInvalid_def)
  have only: "insertsOnly (getPragmaText DvmArray) W ?W'"
    using W2(2) by (rule insertsOnly_Diags)
  have tpl: "collectTemplate SM 0 alignWith Templates = Templates"
    by (simp add: collectTemplate_def isValid_def)
  have first: "InsertTextBefore (getLocationToTransform SM W (getLocStart (hd Redecls)))
                  (getPragmaText DvmArray) \<in> set (Edits ?W')"
    if ne: "Redecls \<noteq> []"
      and m: "\<not> isMacroID (getLocStart (hd Redecls))"
      and d: "Decls (getRawEncoding (getLocation (hd Redecls))) \<noteq> Some False"
      and u: "mInsertedDirs W
                (getRawEncoding (getLocationToTransform SM W (getLocStart (hd Redecls)))) = None"
  proof -
    from ne obtain R Rest where R: "Redecls = R # Rest" by (cases Redecls) auto
    let ?W1 = "insertDataDirective SM (getLocation R) Decls (getLocStart R)
                 (getPragmaText DvmArray) W"
    from insertAlignmentLoop_noDefinition_first
           [OF assms [unfolded R], of Decls Align "getPragmaText DvmArray" W]
    obtain W3 where W3:
      "insertAlignmentLoop SM Import Decls Align (getPragmaText DvmArray) (R # Rest) (0, W)
         = Some (0, W3)"
      "insertsOnly (getPragmaText DvmArray) ?W1 W3" by blast
    from W3(1) W2(1) R have "W3 = W2" by simp
    from insertDataDirective_inserts [of "getLocStart R" Decls "getLocation R" W SM
           "getPragmaText DvmArray"] m d u R
    have "InsertTextBefore (getLocationToTransform SM W (getLocStart R))
            (getPragmaText DvmArray) \<in> set (Edits ?W1)" by simp
    with W3(2) have "InsertTextBefore (getLocationToTransform SM W (getLocStart R))
            (getPragmaText DvmArray) \<in> set (Edits W3)"
      by (rule insertsOnly_keeps_edit)
    with \<open>W3 = W2\<close> R show ?thesis by simp
  qed
  from run only tpl first show ?thesis by auto
qed

theorem insertAlignment_noDefinition_witness:
  "noDefinition SM_example [A_extern] \<and> importFits Import_none [A_extern] \<and>
   (\<exists>W'. insertAlignment SM_example Import_none Decls_A Align_A A_extern [A_extern] Writer_empty
            = Some (0, W') \<and>
          insertsOnly (getPragmaText DvmArray) Writer_empty W' \<and>
          (\<exists>D. Diags W' = D @
              [Diag (Some 44) err_apc_insert_dvm_directive [trim Align_A],
               Diag None note_apc_no_proper_definition [''A'']]) \<and>
          InsertTextBefore 30 (getPragmaText DvmArray) \<in> set (Edits W'))"
proof -
  have h1: "noDefinition SM_example [A_extern]"
    by (simp add: noDefinition_def A_extern_def)
  have h2: "importFits Import_none [A_extern]"
    by (simp add: importFits_def Import_none_def)
  have r: "getLocationToTransform SM_example Writer_empty 30 = 30"
    by (simp add: getLocationToTransform_def Writer_empty_def)
  have h3: "\<not> isMacroID (getLocStart A_extern)"
    by (simp add: isMacroID_def A_extern_def)
  have h4: "Decls_A (getRawEncoding (getLocation A_extern)) \<noteq> Some False"
    by (simp add: Decls_A_def A_extern_def getRawEncoding_def)
  have h5: "mInsertedDirs Writer_empty
              (getRawEncoding (getLocationToTransform SM_example Writer_empty
                 (getLocStart A_extern))) = None"
    by (simp add: Writer_empty_def)
  have s: "getLocStart A_extern = 30" "getLocation A_extern = 44" "getName A_extern = ''A''"
    by (simp_all add: A_extern_def)
  from insertAlignment_noDefinition [OF h1 h2, of Decls_A Align_A A_extern Writer_empty Tpl_T "[]"]
  obtain W' where W':
    "insertAlignment SM_example Import_none Decls_A Align_A A_extern [A_extern] Writer_empty
       = Some (0, W')"
    "insertsOnly (getPragmaText DvmArray) Writer_empty W'"
    "\<exists>D. Diags W' = D @
        [Diag (Some (getLocation A_extern)) err_apc_insert_dvm_directive [trim Align_A],
         Diag None note_apc_no_proper_definition [getName A_extern]]"
    "[A_extern] \<noteq> [] \<and> \<not> isMacroID (getLocStart (hd [A_extern])) \<and>
     Decls_A (getRawEncoding (getLocation (hd [A_extern]))) \<noteq> Some False \<and>
     mInsertedDirs Writer_empty
       (getRawEncoding (getLocationToTransform SM_example Writer_empty
          (getLocStart (hd [A_extern])))) = None
     \<longrightarrow> InsertTextBefore (getLocationToTransform SM_example Writer_empty
             (getLocStart (hd [A_extern]))) (getPragmaText DvmArray) \<in> set (Edits W')"
    by blast
  from W'(4) h3 h4 h5 have
    "InsertTextBefore 30 (getPragmaText DvmArray) \<in> set (Edits W')"
    by (simp add: s r)
  with W'(1,2,3) h1 h2 show ?thesis by (auto simp: s)
qed

text \<open>
  C9 (as stated) fails: for the variable \<^verbatim>\<open>A\<close> with the single redeclaration
  \<^verbatim>\<open>extern double A[100];\<close> the diagnostic is reported and the \<^verbatim>\<open>array\<close> directive is
  inserted before the declaration all the same.
\<close>

theorem insertAlignment_declaration_only_inserts_array:
  "map_option (\<lambda>R. (fst R, Edits (snd R), Diags (snd R)))
     (insertAlignment SM_example Import_none Decls_A Align_A A_extern [A_extern] Writer_empty)
   = Some (0, [InsertTextBefore 30 ''#pragma dvm array\<newline>''],
           [Diag (Some 44) err_apc_insert_dvm_directive
              [''#pragma dvm array align([i] with T[i])''],
            Diag None note_apc_no_proper_definition [''A'']])"
  by (simp add: insertAlignment_def insertAlignmentRedecl_def getDefinition_def A_extern_def
        Import_none_def Decls_A_def Align_A_def getPragmaText_def insertDataDirective_def
        insertDirective_def isMacroID_def getRawEncoding_def getLocationToTransform_def
        SM_example_def Writer_empty_def isInvalid_def trim_def isTrimChar_def Let_def)

text \<open>
  When the statement of the declaration is known to declare several variables, the
  \<^verbatim>\<open>array\<close> directive is refused as well and nothing is inserted.
\<close>

lemma insertAlignment_multi_declarator_inserts_nothing:
  "map_option (\<lambda>R. (fst R, Edits (snd R), Diags (snd R)))
     (insertAlignment SM_example Import_none [44 \<mapsto> False] Align_A A_extern [A_extern]
        Writer_empty)
   = Some (0, [],
           [Diag (Some 30) err_apc_insert_dvm_directive [''#pragma dvm array''],
            Diag (Some 44) note_apc_not_single_decl_stmt [],
            Diag (Some 44) err_apc_insert_dvm_directive
              [''#pragma dvm array align([i] with T[i])''],
            Diag None note_apc_no_proper_definition [''A'']])"
  by (simp add: insertAlignment_def insertAlignmentRedecl_def getDefinition_def A_extern_def
        Import_none_def Align_A_def getPragmaText_def insertDataDirective_def
        isMacroID_def getRawEncoding_def Writer_empty_def isInvalid_def trim_def
        isTrimChar_def Let_def)

lemma distributeText_T:
  "distributeText Tpl_T [BLOCK] = ''#pragma dvm template [100] distribute [block]\<newline>''"
  by (simp add: distributeText_def Tpl_T_def getPragmaText_def Twine_str_def digit_def)

lemma trim_distributeText_T:
  "trim ''#pragma dvm template [100] distribute [block]\<newline>'' =
     ''#pragma dvm template [100] distribute [block]''"
  by (simp add: trim_def isTrimChar_def)

text \<open>
  Every \<^verbatim>\<open>TemplateInfo\<close> that \<^verbatim>\<open>runOnModule\<close> enters has \<^verbatim>\<open>HasDefinition = false\<close>, and the
  flag belongs to the pair of a file and a template.
\<close>

lemma set_alist_update:
  "X \<in> set (alist_update K V M) \<Longrightarrow> X = (K, V) \<or> X \<in> set M"
  by (induction M) (auto split: if_splits)

lemma set_alist_try_emplace:
  "X \<in> set (alist_try_emplace M K V) \<Longrightarrow> X = (K, V) \<or> X \<in> set M"
  by (auto simp: alist_try_emplace_def split: if_splits)

lemma collectTemplate_allFlagsFalse:
  assumes "allFlagsFalse Templates"
  shows "allFlagsFalse (collectTemplate SM DefLoc alignWith Templates)"
proof (cases "isValid DefLoc")
  case False
  with assms show ?thesis by (simp add: collectTemplate_def)
next
  case True
  define FID where "FID = getFileID SM DefLoc"
  define T1 where "T1 = alist_try_emplace Templates FID []"
  define U where "U = (case map_of T1 FID of None \<Rightarrow> [] | Some U \<Rightarrow> U)"
  define U1 where "U1 = alist_try_emplace U alignWith False"
  have T1: "\<forall>Info \<in> set (snd File). \<not> snd Info" if "File \<in> set T1" for File
    using set_alist_try_emplace [of File Templates FID "[]"] that assms
    by (auto simp: T1_def allFlagsFalse_def list_all_iff)
  have U: "\<forall>Info \<in> set U. \<not> snd Info"
  proof (cases "map_of T1 FID")
    case None
    then show ?thesis by (simp add: U_def)
  next
    case (Some U0)
    then have "(FID, U0) \<in> set T1" by (rule map_of_SomeD)
    from T1 [OF this] Some show ?thesis by (simp add: U_def)
  qed
  have U1: "\<forall>Info \<in> set U1. \<not> snd Info"
  proof
    fix Info assume "Info \<in> set U1"
    then have "Info = (alignWith, False) \<or> Info \<in> set U"
      unfolding U1_def by (rule set_alist_try_emplace)
    with U show "\<not> snd Info" by auto
  qed
  have "allFlagsFalse (alist_update FID U1 T1)"
    unfolding allFlagsFalse_def list_all_iff
  proof
    fix File assume "File \<in> set (alist_update FID U1 T1)"
    then have "File = (FID, U1) \<or> File \<in> set T1"
      by (rule set_alist_update)
    then show "\<forall>Info \<in> set (snd File). \<not> snd Info"
    proof
      assume "File = (FID, U1)"
      with U1 show ?thesis by simp
    next
      assume "File \<in> set T1"
      then show ?thesis by (rule T1)
    qed
  qed
  with True show ?thesis
    by (simp add: collectTemplate_def Let_def FID_def T1_def U_def U1_def)
qed

text \<open>
  A template that is used in the file and whose flag is still false is declared without
  \<^verbatim>\<open>extern\<close>, in an include file as well as in a source file.
\<close>

lemma insertTemplate_definition:
  assumes "map_of Usage Tpl = Some False"
      and "Idx < length DistrVariant" and "DistrVariant ! Idx < length Variants"
  shows "\<exists>Usage' W' Where.
           insertTemplate SM DistrVariant File Idx (Tpl, Variants) (Usage, W, Inserted) =
             Some (Usage', W', List.insert Tpl Inserted) \<and>
           Edits W' = Edits W @
             [InsertTextBefore Where
                (distributeText Tpl (Variants ! (DistrVariant ! Idx)) @
                 ''void *'' @ GetShortName Tpl @ '';\<newline>\<newline>'')]"
  using assms by (simp add: insertTemplate_def Let_def)

text \<open>A template that is not used in the file is skipped.\<close>

lemma insertTemplate_unused:
  "map_of (fst S) Tpl = None \<Longrightarrow>
   insertTemplate SM DistrVariant File Idx (Tpl, Variants) S = Some S"
  by (simp add: insertTemplate_def Let_def)

text \<open>
  C4.  The template \<^verbatim>\<open>T\<close> is used by an array defined at location 10 of \<^verbatim>\<open>main.c\<close> and by
  an array defined at location 2010 of \<^verbatim>\<open>other.c\<close>.  Both files receive the declaration
  \<^verbatim>\<open>void *T;\<close> without \<^verbatim>\<open>extern\<close>: two definitions and no \<^verbatim>\<open>extern\<close> declaration.
\<close>

theorem insertDistibution_defines_in_every_file:
  "map_option (\<lambda>R. (fst R, Edits (snd R), Diags (snd R)))
     (insertDistibution SM_example [0] distrRules_T
        (collectTemplate SM_example 2010 Tpl_T (collectTemplate SM_example 10 Tpl_T []))
        Writer_empty)
   = Some ([(1, [(Tpl_T, True)]), (3, [(Tpl_T, True)])],
           [InsertTextBefore 5
              ''#pragma dvm template [100] distribute [block]\<newline>void *T;\<newline>\<newline>'',
            InsertTextBefore 2004
              ''#pragma dvm template [100] distribute [block]\<newline>void *T;\<newline>\<newline>''],
           [])"
  by (simp add: insertDistibution_def insertTemplate_def collectTemplate_def alist_try_emplace_def
        distrRules_T_def distributeText_T isValid_def SM_example_def Writer_empty_def
        getLocWithOffset_def getLocationToTransform_def Let_def)
     (simp add: Tpl_T_def)

text \<open>
  C5.  The template \<^verbatim>\<open>T\<close> is used in the include file \<^verbatim>\<open>decl.h\<close> (file 2).  The two
  diagnostics are reported at the end of its preamble, and the declaration is inserted
  there all the same.
\<close>

theorem insertDistibution_inserts_in_include:
  "map_option (\<lambda>R. (fst R, Edits (snd R), Diags (snd R)))
     (insertDistibution SM_example [0] distrRules_T [(2, [(Tpl_T, False)])] Writer_empty)
   = Some ([(2, [(Tpl_T, True)])],
           [InsertTextBefore 1004
              ''#pragma dvm template [100] distribute [block]\<newline>void *T;\<newline>\<newline>''],
           [Diag (Some 1004) err_apc_insert_dvm_directive
              [''#pragma dvm template [100] distribute [block]''],
            Diag (Some 1004) note_apc_insert_include_prevent []])"
  by (simp add: insertDistibution_def insertTemplate_def distrRules_T_def distributeText_T
        trim_distributeText_T SM_example_def Writer_empty_def getLocWithOffset_def
        getLocationToTransform_def Let_def)
     (simp add: Tpl_T_def)

section \<open>The callers of \<^verbatim>\<open>MergedLocations::find\<close>\<close>

text \<open>
  The alias propagation of \<^verbatim>\<open>insertAlignment\<close> calls \<^verbatim>\<open>find\<close> with the location of the
  redeclaration and with the start of its statement: when one of the calls has no result,
  neither has the loop body.
\<close>

lemma insertAlignmentRedecl_find_undefined:
  assumes "RedeclLocs Import (DeclAddr R) = Some Merged"
      and "find_merged Merged (getLocation R) = None \<or> find_merged Merged (getLocStart R) = None"
  shows "insertAlignmentRedecl SM Import Decls Align Array R S = None"
  using assms by (auto simp: insertAlignmentRedecl_def Let_def split: option.splits)

text \<open>
  C10.  \<^verbatim>\<open>MergedLocations::find\<close> returns a list exactly when \<open>Loc\<close> is the first (original)
  location of one of the stored lists, and then it returns a stored list that starts with
  \<open>Loc\<close>; for every other location it runs off the end of its body without a
  \<^verbatim>\<open>return\<close> (the result \<open>None\<close>).  The alias propagation of \<^verbatim>\<open>insertAlignment\<close> for a merged
  redeclaration is undefined as soon as the location of the redeclaration or the start of
  its statement is not an original location.
\<close>

theorem find_returns_iff_original:
  "wf_MergedLocations M \<Longrightarrow>
     (case find_merged M Loc of
        None \<Rightarrow> Loc \<notin> hd ` set M
      | Some Locs \<Rightarrow> Locs \<in> set M \<and> hd Locs = Loc \<and> Loc \<in> set Locs \<and> Loc \<in> hd ` set M)
     \<and> (RedeclLocs Import (DeclAddr R) = Some M \<and>
          (getLocation R \<notin> hd ` set M \<or> getLocStart R \<notin> hd ` set M)
        \<longrightarrow> insertAlignmentRedecl SM Import Decls Align Array R S = None)"
  using find_merged_Some [of M Loc] find_merged_None [of M Loc]
        find_merged_None [of M "getLocation R"] find_merged_None [of M "getLocStart R"]
        insertAlignmentRedecl_find_undefined [of Import R M SM Decls Align Array S]
  by (auto split: option.splits)

theorem find_returns_iff_original_witness:
  "wf_MergedLocations [[30, 1030], [44, 1044]]
   \<and> find_merged [[30, 1030], [44, 1044]] 44 = Some [44, 1044]
   \<and> find_merged [[30, 1030], [44, 1044]] 1044 = None
   \<and> insertAlignmentRedecl SM_example \<lparr>RedeclLocs = [1 \<mapsto> [[30, 1030], [44, 1044]]]\<rparr>
        Decls_A Align_A (getPragmaText DvmArray) (A_extern\<lparr>getLocation := 1044\<rparr>)
        (0, Writer_empty) = None"
  using find_returns_iff_original [of "[[30, 1030], [44, 1044]]" 44
          "\<lparr>RedeclLocs = [1 \<mapsto> [[30, 1030], [44, 1044]]]\<rparr>" "A_extern\<lparr>getLocation := 1044\<rparr>"
          SM_example Decls_A Align_A "getPragmaText DvmArray" "(0, Writer_empty)"]
        find_returns_iff_original [of "[[30, 1030], [44, 1044]]" 1044
          "\<lparr>RedeclLocs = [1 \<mapsto> [[30, 1030], [44, 1044]]]\<rparr>" "A_extern\<lparr>getLocation := 1044\<rparr>"
          SM_example Decls_A Align_A "getPragmaText DvmArray" "(0, Writer_empty)"]
  by (simp add: wf_MergedLocations_def A_extern_def)

section \<open>Properties of the loop classification\<close>

lemma sameItem_refl: "sameItem P P" by (simp add: sameItem_def)
lemma sameItem_trans: "sameItem P P1 \<Longrightarrow> sameItem P1 P2 \<Longrightarrow> sameItem P P2"
  by (simp add: sameItem_def)

lemma processDependence_Inr_same:
  "processDependence AI L Step Dep (PAD, P) = Some (Inr (PAD', P')) \<Longrightarrow> sameItem P P'"
  by (auto simp: processDependence_def sameItem_def Let_def
           split: option.splits if_splits prod.splits)

lemma processDependence_Inl_same:
  "processDependence AI L Step Dep (PAD, P) = Some (Inl P') \<Longrightarrow> P' = P"
  by (auto simp: processDependence_def Let_def split: option.splits if_splits prod.splits)

lemma processDependences_same:
  "processDependences AI L Step Deps (PAD, P) = Some R \<Longrightarrow>
     sameItem P (case R of Inl P' \<Rightarrow> P' | Inr S \<Rightarrow> snd S)"
proof (induction Deps arbitrary: PAD P)
  case Nil
  then show ?case by (auto simp: sameItem_refl)
next
  case (Cons Dep Deps)
  show ?case
  proof (cases "processDependence AI L Step Dep (PAD, P)")
    case None
    with Cons.prems show ?thesis by simp
  next
    case (Some R1)
    show ?thesis
    proof (cases R1)
      case (Inl P1)
      with Some Cons.prems processDependence_Inl_same [of AI L Step Dep PAD P P1]
      show ?thesis by (auto simp: sameItem_refl)
    next
      case (Inr S1)
      obtain PAD1 P1 where S1: "S1 = (PAD1, P1)" by (cases S1)
      from Some Inr S1 have K: "sameItem P P1"
        using processDependence_Inr_same by blast
      from Some Inr S1 Cons.prems have "processDependences AI L Step Deps (PAD1, P1) = Some R"
        by simp
      from Cons.IH [OF this] K show ?thesis by (rule sameItem_trans [rotated])
    qed
  qed
qed

lemma processRegularDependenceis_cases:
  assumes "processRegularDependenceis IR D P = Some (B, P')"
  shows "(\<not> B \<and> sameItem P P') \<or>
         (B \<and> getDependence D = [] \<and> P' = P) \<or>
         (B \<and> getDependence D \<noteq> [] \<and>
            (\<exists>Step AI PAD P2. ConstStep IR = Some Step \<and> getAccessInfo IR = Some AI \<and>
               processDependences AI (getLoopID IR) Step (getDependence D)
                 (initialAcrossDepth (getDependence D), P) = Some (Inr (PAD, P2)) \<and>
               P' = P2\<lparr>mPossibleAcrossDepth :=
                      (if mPossibleAcrossDepth P2 = 0 then PAD + length (clInduction P2)
                       else min (mPossibleAcrossDepth P2) (PAD + length (clInduction P2)))\<rparr>))"
proof (cases "getDependence D = []")
  case True
  with assms show ?thesis by (auto simp: processRegularDependenceis_def)
next
  case False
  show ?thesis
  proof (cases "ConstStep IR")
    case None
    with assms False show ?thesis by (auto simp: processRegularDependenceis_def sameItem_refl)
  next
    case (Some Step)
    note Step = this
    show ?thesis
    proof (cases "getAccessInfo IR")
      case None
      with assms False Step show ?thesis
        by (auto simp: processRegularDependenceis_def sameItem_refl)
    next
      case (Some AI)
      note AI = this
      show ?thesis
      proof (cases "processDependences AI (getLoopID IR) Step (getDependence D)
                 (initialAcrossDepth (getDependence D), P)")
        case None
        with assms False Step AI show ?thesis by (simp add: processRegularDependenceis_def)
      next
        case (Some R)
        show ?thesis
        proof (cases R)
          case (Inl P1)
          with processDependences_same [OF Some] have "sameItem P P1" by simp
          with assms False Step AI Some Inl show ?thesis
            by (auto simp: processRegularDependenceis_def)
        next
          case (Inr S)
          obtain PAD P2 where S: "S = (PAD, P2)" by (cases S)
          with assms False Step AI Some Inr show ?thesis
            by (auto simp: processRegularDependenceis_def Let_def)
        qed
      qed
    qed
  qed
qed

lemma processRegularDependenceis_keeps:
  assumes "processRegularDependenceis IR D P = Some (B, P')"
  shows "clInduction P' = clInduction P \<and> mIsFinal P' = mIsFinal P \<and>
         clPrivate P' = clPrivate P \<and> clReduction P' = clReduction P"
  using processRegularDependenceis_cases [OF assms]
proof (elim disjE conjE exE)
  fix Step AI PAD P2
  assume "processDependences AI (getLoopID IR) Step (getDependence D)
                 (initialAcrossDepth (getDependence D), P) = Some (Inr (PAD, P2))"
    and P': "P' = P2\<lparr>mPossibleAcrossDepth :=
                      (if mPossibleAcrossDepth P2 = 0 then PAD + length (clInduction P2)
                       else min (mPossibleAcrossDepth P2) (PAD + length (clInduction P2)))\<rparr>"
  from processDependences_same [OF this(1)] have "sameItem P P2" by simp
  with P' show ?thesis by (simp add: sameItem_def)
qed (auto simp: sameItem_def)

text \<open>
  C8 (as amended).  An existing item is extended by the next loop if and only if the loop
  has no first-private and no last-private variable and has an induction variable, is not
  host-only, its private set equals the private clause of the item without the induction
  variable of the loop, its reduction sets equal the reduction clause of the item, and the
  processing of its regular dependences succeeds.  In every other case the item is
  finalized and its induction sequence stays as it is.  (The call has no result only when
  the processing of the dependences has none.)
\<close>

theorem exploitParallelism_extends_iff:
  "(case exploitParallelism IR D (Some P) of
      None \<Rightarrow> processRegularDependenceis IR D
                (P\<lparr>clPrivate := set_erase (getInduction D) (clPrivate P)\<rparr>) = None
    | Some R \<Rightarrow>
        (\<exists>P'. R = (Some P', [], []) \<and>
           (if extendable IR D P
            then clInduction P' = clInduction P @ [getLoopID IR]
            else mIsFinal P' \<and> clInduction P' = clInduction P)))"
proof (cases "getFirstPrivate D \<noteq> [] \<or> getLastPrivate D \<noteq> [] \<or> getInduction D = []")
  case True
  then have "\<not> extendable IR D P" by (auto simp: extendable_def)
  with True show ?thesis by (auto simp: exploitParallelism_def)
next
  case False
  let ?P1 = "P\<lparr>clPrivate := set_erase (getInduction D) (clPrivate P)\<rparr>"
  show ?thesis
  proof (cases "isHostOnly IR \<or> getPrivate D \<noteq> clPrivate ?P1 \<or> getReduction D \<noteq> clReduction ?P1")
    case True
    then have "\<not> extendable IR D P" by (auto simp: extendable_def)
    with True False show ?thesis
      by (auto simp: exploitParallelism_def extendParallelItem_def Let_def)
  next
    case match: False
    show ?thesis
    proof (cases "processRegularDependenceis IR D ?P1")
      case None
      with False match show ?thesis
        by (auto simp: exploitParallelism_def extendParallelItem_def Let_def)
    next
      case (Some R)
      obtain B P2 where R: "R = (B, P2)" by (cases R)
      from processRegularDependenceis_keeps [OF Some [unfolded R]]
      have K: "clInduction P2 = clInduction P" by simp
      have E: "extendable IR D P = B"
        using False match Some R by (auto simp: extendable_def)
      show ?thesis
        using False match Some R K E
        by (auto simp: exploitParallelism_def extendParallelItem_def addInduction_def Let_def)
    qed
  qed
qed

theorem exploitParallelism_extends_iff_witness:
  "extendable Loop_j (DepInfo ''j'' []) (OpenItem [101] 0) \<and>
   exploitParallelism Loop_j (DepInfo ''j'' []) (Some (OpenItem [101] 0)) =
     Some (Some (OpenItem [101, 102] 0), [], []) \<and>
   \<not> extendable Loop_j (DepInfo ''j'' []) ((OpenItem [101] 0)\<lparr>clPrivate := [''t'']\<rparr>) \<and>
   exploitParallelism Loop_j (DepInfo ''j'' []) (Some ((OpenItem [101] 0)\<lparr>clPrivate := [''t'']\<rparr>)) =
     Some (Some ((OpenItem [101] 0)\<lparr>clPrivate := [''j'', ''t''], mIsFinal := True\<rparr>), [], [])"
  using exploitParallelism_extends_iff [of Loop_j "DepInfo ''j'' []" "OpenItem [101] 0"]
        exploitParallelism_extends_iff [of Loop_j "DepInfo ''j'' []"
           "(OpenItem [101] 0)\<lparr>clPrivate := [''t'']\<rparr>"]
  by (simp add: extendable_def exploitParallelism_def extendParallelItem_def addInduction_def
        processRegularDependenceis_def Loop_j_def DepInfo_def OpenItem_def set_erase_def
        set_insert_def noReduction_def Let_def less_eq_char_def less_char_def)

text \<open>
  C8 (as stated) fails: the loop \<^verbatim>\<open>j\<close> is not host-only and its private and reduction
  sets match those of the open item, but it has a last-private variable; the item is
  finalized and not extended.
\<close>

theorem exploitParallelism_lastprivate_finalizes:
  "clausesMatch Loop_j ((DepInfo ''j'' [])\<lparr>getLastPrivate := [''t'']\<rparr>) (OpenItem [101] 0) \<and>
   exploitParallelism Loop_j ((DepInfo ''j'' [])\<lparr>getLastPrivate := [''t'']\<rparr>)
       (Some (OpenItem [101] 0)) =
     Some (Some ((OpenItem [101] 0)\<lparr>mIsFinal := True\<rparr>), [], [])"
  by (simp add: clausesMatch_def exploitParallelism_def Loop_j_def DepInfo_def OpenItem_def
        set_erase_def noReduction_def)

section \<open>Properties of the reduction clauses\<close>

text \<open>
  C3.  For the variables \<^verbatim>\<open>x\<close> and \<^verbatim>\<open>y\<close> of the xor partition the group has an empty kind
  token: the text is \<^verbatim>\<open>reduction((x),(y))\<close>, not \<^verbatim>\<open>reduction(xor(x),xor(y))\<close>.
\<close>

theorem addReductionIfNeed_xor_without_token:
  "addReductionIfNeed [[], [], [], [], [''x'', ''y''], [], []] '' private(t)'' =
     '' private(t)reduction((x),(y))''"
  by (simp add: addReductionIfNeed_def ReductionKinds_def reductionGroup_def RedKind_def)

text \<open>The token is that of the specification for every kind but xor.\<close>

lemma RedKind_spec: "(RedKind K = specKindToken K) = (K \<noteq> RK_Xor)"
  by (cases K) (simp_all add: RedKind_def specKindToken_def)

lemma addReductionIfNeed_sum_max:
  "addReductionIfNeed [[''s''], [], [], [], [], [''m'', ''n''], []] '' private(t)'' =
     '' private(t)reduction(sum(s))reduction(max(m),max(n))''"
  by (simp add: addReductionIfNeed_def ReductionKinds_def reductionGroup_def RedKind_def)

section \<open>The depth ceiling of a nest\<close>

lemma scanPAD_ge: "scanPAD M Rs n = Some k \<Longrightarrow> n \<le> k"
  by (induction Rs arbitrary: n) (auto split: option.splits if_splits dest: Suc_leD)

lemma updatePAD_pos: "updatePAD V n = Some k \<Longrightarrow> 0 < n \<Longrightarrow> 0 < k"
  by (auto simp: updatePAD_def split: list.splits option.splits dest!: scanPAD_ge)

lemma processDependence_pos:
  "processDependence AI L Step Dep (PAD, P) = Some (Inr (PAD', P')) \<Longrightarrow> 0 < PAD \<Longrightarrow> 0 < PAD'"
  by (auto simp: processDependence_def Let_def split: option.splits if_splits prod.splits
           dest: updatePAD_pos)

lemma processDependences_pos:
  "processDependences AI L Step Deps (PAD, P) = Some (Inr (PAD', P')) \<Longrightarrow> 0 < PAD \<Longrightarrow> 0 < PAD'"
proof (induction Deps arbitrary: PAD P)
  case Nil
  then show ?case by simp
next
  case (Cons Dep Deps)
  from Cons.prems(1) obtain PAD1 P1 where
    1: "processDependence AI L Step Dep (PAD, P) = Some (Inr (PAD1, P1))" and
    2: "processDependences AI L Step Deps (PAD1, P1) = Some (Inr (PAD', P'))"
    by (auto split: option.splits sum.splits)
  from processDependence_pos [OF 1 Cons.prems(2)] have "0 < PAD1" .
  from Cons.IH [OF 2 this] show ?case .
qed

lemma processRegularDependenceis_depth:
  assumes R: "processRegularDependenceis IR D P = Some (True, P')"
      and L: "firstDependenceHasLevel D"
      and B: "belowDepth P"
  shows "belowDepth P'"
  using processRegularDependenceis_cases [OF R]
proof (elim disjE conjE exE)
  assume "P' = P"
  with B show ?thesis by simp
next
  fix Step AI PAD P2
  assume ne: "getDependence D \<noteq> []"
    and run: "processDependences AI (getLoopID IR) Step (getDependence D)
                 (initialAcrossDepth (getDependence D), P) = Some (Inr (PAD, P2))"
    and P': "P' = P2\<lparr>mPossibleAcrossDepth :=
                      (if mPossibleAcrossDepth P2 = 0 then PAD + length (clInduction P2)
                       else min (mPossibleAcrossDepth P2) (PAD + length (clInduction P2)))\<rparr>"
  from L ne have "0 < initialAcrossDepth (getDependence D)"
    by (simp add: firstDependenceHasLevel_def)
  from processDependences_pos [OF run this] have pos: "0 < PAD" .
  from processDependences_same [OF run] have "sameItem P P2" by simp
  with B P' pos show ?thesis by (auto simp: belowDepth_def sameItem_def)
qed simp

lemma addInduction_depth:
  "belowDepth P \<Longrightarrow> withinDepth (addInduction IR P) \<and>
     (mIsFinal (addInduction IR P) \<or> belowDepth (addInduction IR P))"
  by (auto simp: addInduction_def belowDepth_def withinDepth_def Let_def)

lemma finalize_depth: "belowDepth P \<Longrightarrow> withinDepth (P\<lparr>mIsFinal := True\<rparr>)"
  by (auto simp: belowDepth_def withinDepth_def)

text \<open>
  When the first dependence of the loop has a distance level and the item, if there is
  one, is below its ceiling, the item that \<^verbatim>\<open>exploitParallelism\<close> returns does not exceed
  its ceiling, and is final or below it.
\<close>

lemma exploitParallelism_depth_invariant:
  assumes R: "exploitParallelism IR D PI = Some (Some P', E, X)"
      and L: "firstDependenceHasLevel D"
      and I: "\<forall>P. PI = Some P \<longrightarrow> belowDepth P"
  shows "withinDepth P' \<and> (mIsFinal P' \<or> belowDepth P')"
proof (cases "getFirstPrivate D \<noteq> [] \<or> getLastPrivate D \<noteq> [] \<or> getInduction D = []")
  case True
  with R obtain P where "PI = Some P" "P' = P\<lparr>mIsFinal := True\<rparr>"
    by (auto simp: exploitParallelism_def)
  with I show ?thesis by (simp add: finalize_depth)
next
  case False
  show ?thesis
  proof (cases PI)
    case (Some P)
    let ?P1 = "P\<lparr>clPrivate := set_erase (getInduction D) (clPrivate P)\<rparr>"
    from I Some have B1: "belowDepth ?P1" by (simp add: belowDepth_def)
    show ?thesis
    proof (cases "isHostOnly IR \<or> getPrivate D \<noteq> clPrivate ?P1 \<or>
                  getReduction D \<noteq> clReduction ?P1")
      case True
      with R False Some have "P' = ?P1\<lparr>clPrivate := set_insert (getInduction D) (clPrivate ?P1),
                              mIsFinal := True\<rparr>"
        by (auto simp: exploitParallelism_def extendParallelItem_def Let_def)
      with B1 show ?thesis by (auto simp: belowDepth_def withinDepth_def)
    next
      case match: False
      from R False Some match obtain B P2 where
        run: "processRegularDependenceis IR D ?P1 = Some (B, P2)" and
        P': "P' = (if B then addInduction IR P2 else P2\<lparr>mIsFinal := True\<rparr>)"
        by (auto simp: exploitParallelism_def extendParallelItem_def Let_def
                 split: option.splits if_splits)
      show ?thesis
      proof (cases B)
        case True
        with run have "belowDepth P2"
          using processRegularDependenceis_depth [OF _ L B1] by simp
        with P' True show ?thesis by (simp add: addInduction_depth)
      next
        case False
        with run processRegularDependenceis_cases [of IR D ?P1 False P2]
        have "sameItem ?P1 P2" by simp
        with B1 have "belowDepth P2" by (simp add: sameItem_def belowDepth_def)
        with P' False show ?thesis by (simp add: finalize_depth)
      qed
    qed
  next
    case None
    let ?P0 = "\<lparr>clPrivate = set_insert_range (getPrivate D) [],
             clReduction = map (\<lambda>Vars. set_insert_range Vars []) (getReduction D),
             clDependence = Map.empty, clInduction = [],
             mPossibleAcrossDepth = 0, mIsFinal = False\<rparr>"
    have B0: "belowDepth ?P0" by (simp add: belowDepth_def)
    from R False None obtain P2 where
      run: "processRegularDependenceis IR D ?P0 = Some (True, P2)" and
      P': "P' = addInduction IR P2 \<or> P' = addInduction IR (P2\<lparr>mIsFinal := True\<rparr>)"
      by (auto simp: exploitParallelism_def createParallelItem_def Let_def
               split: option.splits if_splits)
    from processRegularDependenceis_depth [OF run L B0] have "belowDepth P2" .
    then have "belowDepth (P2\<lparr>mIsFinal := True\<rparr>)" by (simp add: belowDepth_def)
    with \<open>belowDepth P2\<close> P' show ?thesis
      using addInduction_depth [of P2 IR] addInduction_depth [of "P2\<lparr>mIsFinal := True\<rparr>" IR]
      by blast
  qed
qed

section \<open>The across pairs of the regular dependences\<close>

lemma length_resize: "length (resize N V) = N"
  by (simp add: resize_def)

lemma processDependence_Inr:
  assumes "processDependence AI L Step Dep (PAD, P) = Some (Inr (PAD', P'))"
  shows "\<exists>Dim N. findDependentDim AI L (fst Dep) = Some (Dim, N) \<and> Dim < N \<and>
    P' = P\<lparr>clDependence := (clDependence P)(fst Dep \<mapsto>
            (resize N (case clDependence P (fst Dep) of None \<Rightarrow> [] | Some V0 \<Rightarrow> V0))
              [Dim := (if Step < 0
                       then (getDistance (Anti (snd Dep)), getDistance (Flow (snd Dep)))
                       else (getDistance (Flow (snd Dep)), getDistance (Anti (snd Dep))))])\<rparr>"
proof (cases "findDependentDim AI L (fst Dep)")
  case None
  with assms show ?thesis by (simp add: processDependence_def)
next
  case (Some DN)
  obtain Dim N where DN: "DN = (Dim, N)" by (cases DN)
  show ?thesis
  proof (cases "updatePAD (Flow (snd Dep)) PAD")
    case None
    with assms Some DN show ?thesis by (simp add: processDependence_def)
  next
    case PAD1: (Some PAD1)
    show ?thesis
    proof (cases "updatePAD (Anti (snd Dep)) PAD1")
      case None
      with assms Some DN PAD1 show ?thesis by (simp add: processDependence_def)
    next
      case PAD2: (Some PAD2)
      with assms Some DN PAD1 show ?thesis
        by (simp add: processDependence_def Let_def split: if_splits)
    qed
  qed
qed

lemma processDependence_stored:
  assumes "processDependence AI L Step Dep (PAD, P) = Some (Inr (PAD', P'))"
  shows "acrossStored AI L Step P' Dep \<and>
         (\<forall>Name. Name \<noteq> fst Dep \<longrightarrow> clDependence P' Name = clDependence P Name)"
proof -
  from processDependence_Inr [OF assms] obtain Dim N where
    F: "findDependentDim AI L (fst Dep) = Some (Dim, N)" and lt: "Dim < N" and
    P': "P' = P\<lparr>clDependence := (clDependence P)(fst Dep \<mapsto>
            (resize N (case clDependence P (fst Dep) of None \<Rightarrow> [] | Some V0 \<Rightarrow> V0))
              [Dim := (if Step < 0
                       then (getDistance (Anti (snd Dep)), getDistance (Flow (snd Dep)))
                       else (getDistance (Flow (snd Dep)), getDistance (Anti (snd Dep))))])\<rparr>"
    by blast
  from F lt P' show ?thesis
    by (simp add: acrossStored_def length_resize)
qed

lemma acrossStored_cong:
  "clDependence P' (fst Dep) = clDependence P (fst Dep) \<Longrightarrow>
   acrossStored AI L Step P' Dep = acrossStored AI L Step P Dep"
  by (simp add: acrossStored_def cong: option.case_cong)


lemma processDependences_stored:
  "processDependences AI L Step Deps (PAD, P) = Some (Inr (PAD', P')) \<Longrightarrow>
   distinct (map fst Deps) \<Longrightarrow>
   (\<forall>Dep \<in> set Deps. acrossStored AI L Step P' Dep) \<and>
   (\<forall>Name. Name \<notin> fst ` set Deps \<longrightarrow> clDependence P' Name = clDependence P Name)"
proof (induction Deps arbitrary: PAD P)
  case Nil
  then show ?case by simp
next
  case (Cons Dep Deps)
  from Cons.prems(1) obtain PAD1 P1 where
    1: "processDependence AI L Step Dep (PAD, P) = Some (Inr (PAD1, P1))" and
    2: "processDependences AI L Step Deps (PAD1, P1) = Some (Inr (PAD', P'))"
    by (auto split: option.splits sum.splits)
  from Cons.prems(2) have d: "distinct (map fst Deps)" and n: "fst Dep \<notin> fst ` set Deps"
    by auto
  from processDependence_stored [OF 1] have
    s1: "acrossStored AI L Step P1 Dep" and
    k1: "\<forall>Name. Name \<noteq> fst Dep \<longrightarrow> clDependence P1 Name = clDependence P Name"
    by (rule conjunct1, rule conjunct2)
  from Cons.IH [OF 2 d] have
    s2: "\<forall>Dep \<in> set Deps. acrossStored AI L Step P' Dep" and
    k2: "\<forall>Name. Name \<notin> fst ` set Deps \<longrightarrow> clDependence P' Name = clDependence P1 Name"
    by (rule conjunct1, rule conjunct2)
  from k2 n have "clDependence P' (fst Dep) = clDependence P1 (fst Dep)" by blast
  from acrossStored_cong [OF this] s1 have "acrossStored AI L Step P' Dep" by blast
  moreover have "\<forall>Name. Name \<notin> fst ` set (Dep # Deps) \<longrightarrow>
                       clDependence P' Name = clDependence P Name"
  proof (intro allI impI)
    fix Name assume "Name \<notin> fst ` set (Dep # Deps)"
    then have a: "Name \<noteq> fst Dep" and b: "Name \<notin> fst ` set Deps" by simp_all
    from k2 b have "clDependence P' Name = clDependence P1 Name" by blast
    also from k1 a have "\<dots> = clDependence P Name" by blast
    finally show "clDependence P' Name = clDependence P Name" .
  qed
  ultimately show ?case using s2 by simp
qed

text \<open>
  C6 (as amended).  When \<^verbatim>\<open>processRegularDependenceis\<close> returns true, the step of the loop
  is a constant and for every regular dependence of the loop the dependence clause of the
  item holds, at the dependent dimension of the array, the pair of \<^verbatim>\<open>getDistance\<close> of the
  flow distances and \<^verbatim>\<open>getDistance\<close> of the anti distances, in this order for a step that
  is not negative and swapped for a negative step.  \<^verbatim>\<open>getDistance\<close> is the second component
  (the highest distance) of the range of the outermost level, and unknown when there is
  no distance.
\<close>

theorem processRegularDependenceis_across_pair:
  assumes "processRegularDependenceis IR D P = Some (True, P')"
      and "distinct (map fst (getDependence D))"
      and "Dep \<in> set (getDependence D)"
  shows "\<exists>Step AI. ConstStep IR = Some Step \<and> getAccessInfo IR = Some AI \<and>
           acrossStored AI (getLoopID IR) Step P' Dep"
  using processRegularDependenceis_cases [OF assms(1)]
proof (elim disjE conjE exE)
  fix Step AI PAD P2
  assume S: "ConstStep IR = Some Step" "getAccessInfo IR = Some AI"
    and run: "processDependences AI (getLoopID IR) Step (getDependence D)
                 (initialAcrossDepth (getDependence D), P) = Some (Inr (PAD, P2))"
    and P': "P' = P2\<lparr>mPossibleAcrossDepth :=
                      (if mPossibleAcrossDepth P2 = 0 then PAD + length (clInduction P2)
                       else min (mPossibleAcrossDepth P2) (PAD + length (clInduction P2)))\<rparr>"
  from processDependences_stored [OF run assms(2)] assms(3)
  have st: "acrossStored AI (getLoopID IR) Step P2 Dep" by simp
  from P' have "clDependence P' (fst Dep) = clDependence P2 (fst Dep)" by simp
  from acrossStored_cong [OF this] st
  have "acrossStored AI (getLoopID IR) Step P' Dep" by blast
  with S show ?thesis by simp
next
  assume "getDependence D = []"
  with assms(3) show ?thesis by simp
qed simp


lemma fdd_i: "findDependentDim (\<lambda>Scope. [Access_A]) 101 ''A'' = Some (0, 2)"
  by (simp add: findDependentDim_def isAccessTo_def Access_A_def array_accesses_def)

lemma resize_empty_2: "resize 2 [] = [(None, None), (None, None)]"
  by (simp add: resize_def numeral_2_eq_2)

text \<open>
  A flow dependence of distance 1 and an anti dependence of distance 2 on the loop \<^verbatim>\<open>i\<close>
  with step 1: the pair (1, 2) is recorded in dimension 0.
\<close>

theorem processRegularDependenceis_across_pair_witness:
  "processRegularDependenceis Loop_i
        (DepInfo ''i'' [(''A'', \<lparr>Flow = [exact 1], Anti = [exact 2]\<rparr>)]) (OpenItem [] 0) =
     Some (True, (OpenItem [] 1)\<lparr>clDependence :=
        [''A'' \<mapsto> [(Some (APSInt_of_int 1), Some (APSInt_of_int 2)), (None, None)]]\<rparr>)
   \<and> acrossStored (\<lambda>Scope. [Access_A]) 101 1
       ((OpenItem [] 1)\<lparr>clDependence :=
        [''A'' \<mapsto> [(Some (APSInt_of_int 1), Some (APSInt_of_int 2)), (None, None)]]\<rparr>)
       (''A'', \<lparr>Flow = [exact 1], Anti = [exact 2]\<rparr>)"
proof -
  have run: "processRegularDependenceis Loop_i
        (DepInfo ''i'' [(''A'', \<lparr>Flow = [exact 1], Anti = [exact 2]\<rparr>)]) (OpenItem [] 0) =
     Some (True, (OpenItem [] 1)\<lparr>clDependence :=
        [''A'' \<mapsto> [(Some (APSInt_of_int 1), Some (APSInt_of_int 2)), (None, None)]]\<rparr>)"
    by (simp add: processRegularDependenceis_def
        processDependence_def fdd_i updatePAD_def initialAcrossDepth_def
        getDistance_def resize_empty_2 Loop_i_def DepInfo_def OpenItem_def exact_def Let_def)
  have d: "distinct (map fst (getDependence
        (DepInfo ''i'' [(''A'', \<lparr>Flow = [exact 1], Anti = [exact 2]\<rparr>)])))"
    by (simp add: DepInfo_def)
  have m: "(''A'', \<lparr>Flow = [exact 1], Anti = [exact 2]\<rparr>) \<in> set (getDependence
        (DepInfo ''i'' [(''A'', \<lparr>Flow = [exact 1], Anti = [exact 2]\<rparr>)]))"
    by (simp add: DepInfo_def)
  from processRegularDependenceis_across_pair [OF run d m] run show ?thesis by (simp add: Loop_i_def)
qed

text \<open>
  C6 (as stated) fails: with flow distances between 1 and 3 and anti distances between
  2 and 5 on the loop \<^verbatim>\<open>i\<close> with step 1, the pair recorded in dimension 0 is (3, 5), the
  highest distances, while the minimal distances are 1 and 2.
\<close>

theorem processRegularDependenceis_stores_highest_distance:
  "map_option (\<lambda>R. (fst R, clDependence (snd R) ''A''))
     (processRegularDependenceis Loop_i
        (DepInfo ''i'' [(''A'', \<lparr>Flow = [between 1 3], Anti = [between 2 5]\<rparr>)])
        (OpenItem [] 0)) =
     Some (True, Some [(Some (APSInt_of_int 3), Some (APSInt_of_int 5)), (None, None)])
   \<and> minimalDistance [between 1 3] = Some (APSInt_of_int 1)
   \<and> minimalDistance [between 2 5] = Some (APSInt_of_int 2)"
  by code_simp

section \<open>A nest that exceeds its depth ceiling\<close>

text \<open>
  C7.  The loop \<^verbatim>\<open>i\<close> has a flow dependence on \<^verbatim>\<open>A\<close> with two distance levels: its item is
  open with the induction sequence [101] and the ceiling 2.  The loop \<^verbatim>\<open>j\<close> has a
  dependence on \<^verbatim>\<open>A\<close> without any distance: the ceiling becomes 1, the induction
  sequence becomes [101, 102], and the item is not finalized.
\<close>

theorem exploitParallelism_exceeds_depth:
  "map_option (\<lambda>R. (map_option itemSummary (fst R), snd R))
     (exploitParallelism Loop_i
        (DepInfo ''i'' [(''A'', \<lparr>Flow = [exact 1, exact 0], Anti = []\<rparr>)]) None) =
     Some (Some ([101], 2, False), [Parallel], [])
   \<and> (case exploitParallelism Loop_i
              (DepInfo ''i'' [(''A'', \<lparr>Flow = [exact 1, exact 0], Anti = []\<rparr>)]) None of
         Some (Some P, Blocks) \<Rightarrow>
           map_option (\<lambda>R. map_option itemSummary (fst R))
             (exploitParallelism Loop_j (DepInfo ''j'' [(''A'', \<lparr>Flow = [], Anti = []\<rparr>)])
                (Some P))
       | _ \<Rightarrow> None) =
     Some (Some ([101, 102], 1, False))"
  by code_simp

text \<open>
  The item that the second call returns exceeds its ceiling and is not final.
\<close>

theorem exploitParallelism_exceeds_depth_witness:
  "(case exploitParallelism Loop_i
              (DepInfo ''i'' [(''A'', \<lparr>Flow = [exact 1, exact 0], Anti = []\<rparr>)]) None of
      Some (Some P, Blocks) \<Rightarrow>
        (case exploitParallelism Loop_j (DepInfo ''j'' [(''A'', \<lparr>Flow = [], Anti = []\<rparr>)])
                (Some P) of
           Some (Some P', Blocks') \<Rightarrow> \<not> withinDepth P' \<and> \<not> mIsFinal P'
         | _ \<Rightarrow> False)
    | _ \<Rightarrow> False)"
  using exploitParallelism_exceeds_depth
  by (auto simp: itemSummary_def withinDepth_def split: option.splits prod.splits)

end
